theory Spec2Isabelle
  imports Complex_Main
begin

section \<open>The report generator of generate_report.py\<close>

text \<open>
  The program is one Python file: the class \<open>RPGReport\<close>, a subclass of the PDF writer
  \<open>FPDF\<close> of the library fpdf2, and the function \<open>generate_report\<close>, which
  calls the methods of one \<open>RPGReport\<close> object in sequence. The methods of
  \<open>RPGReport\<close> (\<open>header\<close>, \<open>footer\<close>, \<open>chapter_title\<close>,
  \<open>body_text\<close>, \<open>bullet_point\<close>, \<open>code_block\<close>, \<open>bold_text\<close>)
  are translated line by line. The methods they inherit from \<open>FPDF\<close> are not
  part of the repository; the part of their behaviour that the program relies on (the
  cursor, the current style, the page counter, the automatic page break of \<open>cell\<close>
  and the calls of \<open>footer\<close> and \<open>header\<close> made by \<open>add_page\<close>) is
  written out below as the library documents it.

  Lengths are millimetres, as exact real numbers: the source computes with floats
  (\<open>4.2\<close>, \<open>5.5\<close>), whose rounding is not modelled.
\<close>

subsection \<open>Drawn primitives\<close>

type_synonym rgb = "nat \<times> nat \<times> nat"

datatype align = AlignL | AlignC | AlignR | AlignJ

text \<open>Where a cell leaves the cursor: fpdf2's \<open>XPos\<close> and \<open>YPos\<close>.\<close>

datatype xpos = X_RIGHT | X_LMARGIN | X_LEFT

datatype ypos = Y_TOP | Y_NEXT

text \<open>
  A text is recorded with the box of its cell (left, top, width, height), its alignment in
  the box and its string; a line with its two end points; a rectangle with its corner,
  width, height and style.
\<close>

datatype prim =
    Text real real real real align string
  | Line real real real real
  | Rect real real real real string

text \<open>
  Who asked for a primitive: the content code, or \<open>header\<close> or \<open>footer\<close> running
  inside \<open>add_page\<close>.
\<close>

datatype origin = Body | Header | Footer

text \<open>
  What a primitive looks like beyond its geometry: a text takes the current font and text
  colour, a line the draw colour, a filled rectangle the draw and the fill colour.
\<close>

datatype look =
    TextLook string string real rgb
  | LineLook rgb
  | RectLook rgb rgb

record draw =
  d_page :: nat
  d_origin :: origin
  d_look :: look
  d_prim :: prim

subsection \<open>The state of the FPDF object\<close>

text \<open>
  The attributes of the object that the program reads or writes. \<open>pdf_w\<close>,
  \<open>pdf_h\<close>, \<open>pdf_x\<close>, \<open>pdf_y\<close> are fpdf's \<open>w\<close>, \<open>h\<close>, \<open>x\<close>,
  \<open>y\<close>. \<open>in_header\<close> is not an attribute of fpdf: it only labels the
  primitives that \<open>header\<close> draws, as \<open>in_footer\<close> does for \<open>footer\<close>.
  \<open>wrap_lines\<close> and \<open>string_width\<close> stand for the font metrics of the
  library, which decide where \<open>multi_cell\<close> breaks a text into lines and what
  \<open>get_string_width\<close> returns: they are arbitrary.
\<close>

record pdf =
  pdf_w :: real
  pdf_h :: real
  l_margin :: real
  r_margin :: real
  t_margin :: real
  b_margin :: real
  auto_page_break :: bool
  page :: nat
  pdf_x :: real
  pdf_y :: real
  font_family :: string
  font_style :: string
  font_size_pt :: real
  text_color :: rgb
  draw_color :: rgb
  fill_color :: rgb
  in_footer :: bool
  in_header :: bool
  str_alias_nb_pages :: "string option"
  wrap_lines :: "string \<times> string \<times> real \<Rightarrow> real \<Rightarrow> string \<Rightarrow> string list"
  string_width :: "string \<times> string \<times> real \<Rightarrow> string \<Rightarrow> real"
  out :: "draw list"

text \<open>Running a sequence of method calls on the object, first to last.\<close>

definition seq :: "('s \<Rightarrow> 's) list \<Rightarrow> 's \<Rightarrow> 's" where
  "seq fs s = fold (\<lambda>f t. f t) fs s"

subsection \<open>The methods of FPDF that the program calls\<close>

definition set_font :: "string \<Rightarrow> string \<Rightarrow> real \<Rightarrow> pdf \<Rightarrow> pdf" where
  "set_font fam sty sz s = s\<lparr>font_family := fam, font_style := sty, font_size_pt := sz\<rparr>"

definition set_text_color :: "nat \<Rightarrow> nat \<Rightarrow> nat \<Rightarrow> pdf \<Rightarrow> pdf" where
  "set_text_color r g b s = s\<lparr>text_color := (r, g, b)\<rparr>"

definition set_draw_color :: "nat \<Rightarrow> nat \<Rightarrow> nat \<Rightarrow> pdf \<Rightarrow> pdf" where
  "set_draw_color r g b s = s\<lparr>draw_color := (r, g, b)\<rparr>"

definition set_fill_color :: "nat \<Rightarrow> nat \<Rightarrow> nat \<Rightarrow> pdf \<Rightarrow> pdf" where
  "set_fill_color r g b s = s\<lparr>fill_color := (r, g, b)\<rparr>"

definition get_x :: "pdf \<Rightarrow> real" where
  "get_x s = pdf_x s"

definition get_y :: "pdf \<Rightarrow> real" where
  "get_y s = pdf_y s"

definition page_no :: "pdf \<Rightarrow> nat" where
  "page_no s = page s"

text \<open>A negative abscissa or ordinate counts from the right or the bottom edge.\<close>

definition set_x :: "real \<Rightarrow> pdf \<Rightarrow> pdf" where
  "set_x v s = s\<lparr>pdf_x := (if 0 \<le> v then v else pdf_w s + v)\<rparr>"

definition set_y :: "real \<Rightarrow> pdf \<Rightarrow> pdf" where
  "set_y v s = s\<lparr>pdf_x := l_margin s, pdf_y := (if 0 \<le> v then v else pdf_h s + v)\<rparr>"

definition set_xy :: "real \<Rightarrow> real \<Rightarrow> pdf \<Rightarrow> pdf" where
  "set_xy vx vy s = set_x vx (set_y vy s)"

definition ln :: "real \<Rightarrow> pdf \<Rightarrow> pdf" where
  "ln hh s = s\<lparr>pdf_x := l_margin s, pdf_y := pdf_y s + hh\<rparr>"

definition origin_of :: "pdf \<Rightarrow> origin" where
  "origin_of s = (if in_footer s then Footer else if in_header s then Header else Body)"

text \<open>Every drawing method writes to the current page, in the current style.\<close>

definition look_of :: "pdf \<Rightarrow> prim \<Rightarrow> look" where
  "look_of s p =
     (case p of
        Text tx ty tw th al t \<Rightarrow>
          TextLook (font_family s) (font_style s) (font_size_pt s) (text_color s)
      | Line x1 y1 x2 y2 \<Rightarrow> LineLook (draw_color s)
      | Rect rx ry rw rh sty \<Rightarrow> RectLook (draw_color s) (fill_color s))"

definition draw_of :: "pdf \<Rightarrow> prim \<Rightarrow> draw" where
  "draw_of s p =
     \<lparr>d_page = page s, d_origin = origin_of s, d_look = look_of s p, d_prim = p\<rparr>"

definition emit :: "prim \<Rightarrow> pdf \<Rightarrow> pdf" where
  "emit p s = s\<lparr>out := out s @ [draw_of s p]\<rparr>"

definition line :: "real \<Rightarrow> real \<Rightarrow> real \<Rightarrow> real \<Rightarrow> pdf \<Rightarrow> pdf" where
  "line x1 y1 x2 y2 s = emit (Line x1 y1 x2 y2) s"

definition rect :: "real \<Rightarrow> real \<Rightarrow> real \<Rightarrow> real \<Rightarrow> string \<Rightarrow> pdf \<Rightarrow> pdf" where
  "rect rx ry rw rh sty s = emit (Rect rx ry rw rh sty) s"

text \<open>
  The drawing half of \<open>cell\<close>: a width of 0 extends the cell to the right margin; the
  text is drawn in the box at the cursor; the cursor moves as \<open>new_x\<close> and
  \<open>new_y\<close> say.
\<close>

definition render_cell :: "real \<Rightarrow> real \<Rightarrow> string \<Rightarrow> align \<Rightarrow> xpos \<Rightarrow> ypos \<Rightarrow> pdf \<Rightarrow> pdf" where
  "render_cell cw hh txt al nx ny s =
     (let cw' = (if cw = 0 then pdf_w s - r_margin s - pdf_x s else cw);
          s1 = emit (Text (pdf_x s) (pdf_y s) cw' hh al txt) s
      in s1\<lparr>pdf_x := (case nx of X_RIGHT \<Rightarrow> pdf_x s + cw' | X_LMARGIN \<Rightarrow> l_margin s
                         | X_LEFT \<Rightarrow> pdf_x s),
             pdf_y := (case ny of Y_TOP \<Rightarrow> pdf_y s | Y_NEXT \<Rightarrow> pdf_y s + hh)\<rparr>)"

subsection \<open>Decimal strings\<close>

definition digit_char :: "nat \<Rightarrow> char" where
  "digit_char d = ''0123456789'' ! d"

function str_nat :: "nat \<Rightarrow> string" where
  "str_nat n = (if n < 10 then [digit_char n] else str_nat (n div 10) @ [digit_char (n mod 10)])"
  by pat_completeness auto
termination
  by (relation "measure id") auto

declare str_nat.simps [simp del]

subsection \<open>RPGReport.header and RPGReport.footer\<close>

text \<open>
  fpdf calls both from \<open>add_page\<close> only. Their cells are the drawing half of
  \<open>cell\<close>: in \<open>footer\<close> the flag \<open>in_footer\<close> switches the automatic page
  break off; in \<open>header\<close> the cursor stands at the top margin, so the break could
  only trigger on a page too short for one line of 5 mm below the top margin (see
  \<open>ready\<close>).
\<close>

definition header_title :: string where
  "header_title = ''TP3 - Hexagone 2026 | Mathias Kowalski''"

definition footer_caption :: string where
  "footer_caption = ''Below - Console RPG | C++17 / ECS Architecture''"

definition page_label :: "nat \<Rightarrow> string" where
  "page_label n = ''Page '' @ str_nat n @ ''/{nb}''"

definition header :: "pdf \<Rightarrow> pdf" where
  "header = seq
     [set_font ''Helvetica'' ''I'' 8,
      set_text_color 120 120 120,
      render_cell 0 5 header_title AlignL X_RIGHT Y_TOP,
      (\<lambda>s. render_cell 0 5 (page_label (page_no s)) AlignR X_LMARGIN Y_NEXT s),
      line 10 13 200 13,
      ln 4]"

definition footer :: "pdf \<Rightarrow> pdf" where
  "footer = seq
     [set_y (- 15),
      set_font ''Helvetica'' ''I'' 8,
      set_text_color 120 120 120,
      (\<lambda>s. line 10 (get_y s - 2) 200 (get_y s - 2) s),
      render_cell 0 10 footer_caption AlignC X_RIGHT Y_TOP]"

subsection \<open>add_page and the automatic page break\<close>

text \<open>
  \<open>add_page\<close> remembers the current font and colours, closes the open page with
  \<open>footer\<close>, opens the next page with the cursor at the top left margin, runs
  \<open>header\<close> and puts the remembered font and colours back. The font is put back
  only when one was selected before (the family is not empty).
\<close>

definition restore_style :: "pdf \<Rightarrow> pdf \<Rightarrow> pdf" where
  "restore_style s0 s =
     (let s1 = (if font_family s0 = [] then s
                else set_font (font_family s0) (font_style s0) (font_size_pt s0) s)
      in s1\<lparr>text_color := text_color s0, draw_color := draw_color s0,
             fill_color := fill_color s0\<rparr>)"

definition add_page :: "pdf \<Rightarrow> pdf" where
  "add_page s =
     (let s1 = (if 0 < page s then (footer (s\<lparr>in_footer := True\<rparr>))\<lparr>in_footer := False\<rparr>
                else s);
          s2 = s1\<lparr>page := page s1 + 1, pdf_x := l_margin s1, pdf_y := t_margin s1\<rparr>;
          s3 = restore_style s s2;
          s4 = (header (s3\<lparr>in_header := True\<rparr>))\<lparr>in_header := False\<rparr>
      in restore_style s s4)"

definition page_break_trigger :: "pdf \<Rightarrow> real" where
  "page_break_trigger s = pdf_h s - b_margin s"

definition will_page_break :: "real \<Rightarrow> pdf \<Rightarrow> bool" where
  "will_page_break hh s =
     (pdf_y s + hh > page_break_trigger s \<and> \<not> in_footer s \<and> auto_page_break s)"

text \<open>The break keeps the abscissa of the cursor and takes the ordinate of the new page.\<close>

definition perform_page_break :: "pdf \<Rightarrow> pdf" where
  "perform_page_break s = (let x0 = pdf_x s in (add_page s)\<lparr>pdf_x := x0\<rparr>)"

definition cell :: "real \<Rightarrow> real \<Rightarrow> string \<Rightarrow> align \<Rightarrow> xpos \<Rightarrow> ypos \<Rightarrow> pdf \<Rightarrow> pdf" where
  "cell cw hh txt al nx ny s =
     render_cell cw hh txt al nx ny (if will_page_break hh s then perform_page_break s else s)"

text \<open>
  \<open>multi_cell\<close> breaks the text into lines for the width of the cell (at least one
  line) and draws one cell per line, each after its own page-break check, all at the
  abscissa where the first started; after the last line the cursor is right of the cell,
  on the next line (fpdf2's defaults \<open>new_x = RIGHT\<close>, \<open>new_y = NEXT\<close>).
\<close>

fun multi_cell_lines :: "real \<Rightarrow> real \<Rightarrow> string list \<Rightarrow> pdf \<Rightarrow> pdf" where
  "multi_cell_lines cw hh [] s = s"
| "multi_cell_lines cw hh [l] s = cell cw hh l AlignJ X_RIGHT Y_NEXT s"
| "multi_cell_lines cw hh (l # ls) s =
     multi_cell_lines cw hh ls (cell cw hh l AlignJ X_LEFT Y_NEXT s)"

definition text_lines :: "pdf \<Rightarrow> real \<Rightarrow> string \<Rightarrow> string list" where
  "text_lines s cw txt =
     (case wrap_lines s (font_family s, font_style s, font_size_pt s) cw txt of
        [] \<Rightarrow> [[]]
      | l # ls \<Rightarrow> l # ls)"

definition multi_cell :: "real \<Rightarrow> real \<Rightarrow> string \<Rightarrow> pdf \<Rightarrow> pdf" where
  "multi_cell cw hh txt s =
     (let cw' = (if cw = 0 then pdf_w s - r_margin s - pdf_x s else cw)
      in multi_cell_lines cw' hh (text_lines s cw' txt) s)"

definition get_string_width :: "string \<Rightarrow> pdf \<Rightarrow> real" where
  "get_string_width txt s = string_width s (font_family s, font_style s, font_size_pt s) txt"

subsection \<open>The block renderers of RPGReport\<close>

text \<open>
  The heading of level 1, 2 or 3; any other level draws nothing. The cells take fpdf's
  default alignment, left.
\<close>

definition chapter_title :: "string \<Rightarrow> int \<Rightarrow> pdf \<Rightarrow> pdf" where
  "chapter_title title level =
     (if level = 1 then seq
        [set_font ''Helvetica'' ''B'' 16,
         set_text_color 25 55 120,
         ln 4,
         cell 0 10 title AlignL X_LMARGIN Y_NEXT,
         set_draw_color 25 55 120,
         (\<lambda>s. line 10 (get_y s) 200 (get_y s) s),
         ln 4]
      else if level = 2 then seq
        [set_font ''Helvetica'' ''B'' 13,
         set_text_color 40 80 150,
         ln 3,
         cell 0 8 title AlignL X_LMARGIN Y_NEXT,
         ln 2]
      else if level = 3 then seq
        [set_font ''Helvetica'' ''B'' 11,
         set_text_color 60 100 170,
         ln 2,
         cell 0 7 title AlignL X_LMARGIN Y_NEXT,
         ln 1]
      else seq [])"

definition body_text :: "string \<Rightarrow> pdf \<Rightarrow> pdf" where
  "body_text txt = seq
     [set_font ''Helvetica'' [] 10,
      set_text_color 30 30 30,
      multi_cell 0 5.5 txt,
      ln 1]"

definition bullet_point :: "string \<Rightarrow> real \<Rightarrow> pdf \<Rightarrow> pdf" where
  "bullet_point txt indent = seq
     [set_font ''Helvetica'' [] 10,
      set_text_color 30 30 30,
      (\<lambda>s. set_x (l_margin s + indent) s),
      (\<lambda>s. multi_cell (pdf_w s - r_margin s - l_margin s - indent) 5.5 (''- '' @ txt) s)]"

text \<open>Python's \<open>code.split("\n")\<close>: the pieces between the newlines, at least one.\<close>

fun split_nl :: "string \<Rightarrow> string list" where
  "split_nl [] = [[]]"
| "split_nl (c # cs) =
     (if c = CHR 0x0A then [] # split_nl cs
      else (case split_nl cs of [] \<Rightarrow> [[c]] | l # ls \<Rightarrow> (c # l) # ls))"

text \<open>The height of the block: 4.2 per line of code and 4 of padding.\<close>

definition block_height :: "string \<Rightarrow> real" where
  "block_height code = real (length (split_nl code)) * 4.2 + 4"

text \<open>
  \<open>code_block\<close> (its parameter \<open>lang\<close> is never read). The loop draws one cell per
  line of code and puts the cursor back to the left edge of the text after each.
\<close>

definition code_line :: "real \<Rightarrow> string \<Rightarrow> pdf \<Rightarrow> pdf" where
  "code_line x0 l s = set_x (x0 + 3) (cell 0 4.2 l AlignL X_LMARGIN Y_NEXT s)"

definition code_block :: "string \<Rightarrow> pdf \<Rightarrow> pdf" where
  "code_block code s =
     (let s1 = seq [set_font ''Courier'' [] 8,
                    set_fill_color 240 240 245,
                    set_text_color 40 40 40,
                    set_draw_color 200 200 210] s;
          x0 = get_x s1 + 5;
          y0 = get_y s1;
          lines = split_nl code;
          h0 = real (length lines) * 4.2 + 4;
          s2 = (if y0 + h0 > 270 then add_page s1 else s1);
          y1 = (if y0 + h0 > 270 then get_y s2 else y0);
          s3 = rect x0 y1 180 h0 ''DF'' s2;
          s4 = set_xy (x0 + 3) (y1 + 2) s3;
          s5 = fold (code_line x0) lines s4
      in ln 3 s5)"

definition bold_text :: "string \<Rightarrow> string \<Rightarrow> pdf \<Rightarrow> pdf" where
  "bold_text label txt = seq
     [set_font ''Helvetica'' ''B'' 10,
      set_text_color 30 30 30,
      (\<lambda>s. cell (get_string_width label s + 1) 5.5 label AlignL X_RIGHT Y_TOP s),
      set_font ''Helvetica'' [] 10,
      multi_cell 0 5.5 txt]"

subsection \<open>generate_report\<close>

text \<open>
  The object as \<open>RPGReport()\<close> creates it: fpdf's defaults are a portrait A4 page
  (595.28 by 841.89 points, 72 / 25.4 points to the millimetre), margins of 10 mm, an
  automatic page break 20 mm above the bottom edge, no font selected, black colours.
\<close>

definition RPGReport ::
  "(string \<times> string \<times> real \<Rightarrow> real \<Rightarrow> string \<Rightarrow> string list) \<Rightarrow>
   (string \<times> string \<times> real \<Rightarrow> string \<Rightarrow> real) \<Rightarrow> pdf" where
  "RPGReport wl sw =
     \<lparr>pdf_w = 595.28 * 25.4 / 72, pdf_h = 841.89 * 25.4 / 72,
      l_margin = 10, r_margin = 10, t_margin = 10, b_margin = 20,
      auto_page_break = True, page = 0, pdf_x = 10, pdf_y = 10,
      font_family = [], font_style = [], font_size_pt = 12,
      text_color = (0, 0, 0), draw_color = (0, 0, 0), fill_color = (0, 0, 0),
      in_footer = False, in_header = False, str_alias_nb_pages = None,
      wrap_lines = wl, string_width = sw, out = []\<rparr>"

definition alias_nb_pages :: "pdf \<Rightarrow> pdf" where
  "alias_nb_pages s = s\<lparr>str_alias_nb_pages := Some ''{nb}''\<rparr>"

definition set_auto_page_break :: "bool \<Rightarrow> real \<Rightarrow> pdf \<Rightarrow> pdf" where
  "set_auto_page_break auto margin s = s\<lparr>auto_page_break := auto, b_margin := margin\<rparr>"

text \<open>
  The calls that the body of \<open>generate_report\<close> makes on the object, as data: the
  report is a list of them. \<open>LineAtY x1 x2\<close> is
  \<open>pdf.line(x1, pdf.get_y(), x2, pdf.get_y())\<close>.
\<close>

datatype cmd =
    AddPage
  | Ln real
  | SetFont string string real
  | SetTextColor nat nat nat
  | SetDrawColor nat nat nat
  | Cell real real string align xpos ypos
  | LineAtY real real
  | ChapterTitle string int
  | BodyText string
  | BulletPoint string real
  | CodeBlock string
  | BoldText string string

fun exec :: "cmd \<Rightarrow> pdf \<Rightarrow> pdf" where
  "exec AddPage s = add_page s"
| "exec (Ln hh) s = ln hh s"
| "exec (SetFont fam sty sz) s = set_font fam sty sz s"
| "exec (SetTextColor r g b) s = set_text_color r g b s"
| "exec (SetDrawColor r g b) s = set_draw_color r g b s"
| "exec (Cell cw hh txt al nx ny) s = cell cw hh txt al nx ny s"
| "exec (LineAtY x1 x2) s = line x1 (get_y s) x2 (get_y s) s"
| "exec (ChapterTitle title level) s = chapter_title title level s"
| "exec (BodyText txt) s = body_text txt s"
| "exec (BulletPoint txt indent) s = bullet_point txt indent s"
| "exec (CodeBlock code) s = code_block code s"
| "exec (BoldText label txt) s = bold_text label txt s"

definition run :: "cmd list \<Rightarrow> pdf \<Rightarrow> pdf" where
  "run cmds s = fold exec cmds s"

text \<open>
  The table of contents (lines 136 to 169): one cell per entry, the number and the title,
  a leader of dots and the page. Python's \<open>"." * k\<close> is the empty string for
  \<open>k \<le> 0\<close>.
\<close>

definition py_str_mul :: "string \<Rightarrow> int \<Rightarrow> string" where
  "py_str_mul t k = (if k \<le> 0 then [] else concat (replicate (nat k) t))"

definition toc_dots :: "string \<Rightarrow> string \<Rightarrow> string" where
  "toc_dots num title = py_str_mul ''.'' (70 - int (length num) - int (length title))"

definition toc_text :: "string \<Rightarrow> string \<Rightarrow> nat \<Rightarrow> string" where
  "toc_text num title pg =
     num @ ''  '' @ title @ '' '' @ toc_dots num title @ '' '' @ str_nat pg"

definition startswith_space :: "string \<Rightarrow> bool" where
  "startswith_space t = (case t of [] \<Rightarrow> False | c # cs \<Rightarrow> c = CHR '' '')"

definition toc_entry :: "string \<times> string \<times> nat \<Rightarrow> cmd list" where
  "toc_entry e =
     (case e of (num, title, pg) \<Rightarrow>
        [SetFont ''Helvetica'' (if \<not> startswith_space num then ''B'' else []) 11,
         Cell 0 6.5 (toc_text num title pg) AlignL X_LMARGIN Y_NEXT])"

definition toc :: "(string \<times> string \<times> nat) list" where
  "toc =
     [(''1.'', ''Introduction'', 3),
      (''2.'', ''Technologies employees'', 4),
      (''3.'', ''Architecture du projet'', 5),
      (''  3.1'', ''Structure des dossiers'', 5),
      (''  3.2'', ''Le systeme ECS (Entity-Component-System)'', 6),
      (''  3.3'', ''Separation Moteur / Jeu'', 7),
      (''4.'', ''Modelisation UML'', 8),
      (''  4.1'', ''Diagramme de classes (composants)'', 8),
      (''  4.2'', ''Heritage et polymorphisme'', 9),
      (''5.'', ''Les personnages'', 10),
      (''  5.1'', ''Le joueur'', 10),
      (''  5.2'', ''Les ennemis'', 10),
      (''  5.3'', ''Les allies et PNJ'', 11),
      (''6.'', ''Les objets et l'' @ [CHR 0x27] @ ''inventaire'', 12),
      (''  6.1'', ''Types d'' @ [CHR 0x27] @ ''objets'', 12),
      (''  6.2'', ''Potions et effets'', 12),
      (''  6.3'', ''Armes et armures'', 13),
      (''  6.4'', ''Equipement et anatomie'', 13),
      (''7.'', ''Le systeme de combat'', 14),
      (''8.'', ''Rencontres et interactions'', 15),
      (''9.'', ''Surcharge d'' @ [CHR 0x27] @ ''operateurs'', 16),
      (''10.'', ''Systeme de sauvegarde et chargement'', 17),
      (''11.'', ''Generation procedurale du monde'', 18),
      (''12.'', ''Intelligence artificielle (Utility AI)'', 19),
      (''13.'', ''Conception data-driven (JSON)'', 20),
      (''14.'', ''Compilation et execution'', 21),
      (''15.'', ''Conclusion'', 22)]"

definition toc_section :: "cmd list" where
  "toc_section =
     [AddPage,
      ChapterTitle ''Table des matieres'' 1,
      SetFont ''Helvetica'' [] 11,
      SetTextColor 30 30 30]
     @ concat (map toc_entry toc)
     @ [Ln 5]"

text \<open>
  \<open>output_pdf\<close> (fpdf's \<open>output\<close>) closes the document (an empty document gets one page; the last page
  gets its footer) and then replaces the alias of \<open>alias_nb_pages\<close> by the number
  of pages in every text: Python's \<open>str.replace\<close>, left to right.
\<close>

function str_replace :: "string \<Rightarrow> string \<Rightarrow> string \<Rightarrow> string" where
  "str_replace old new t =
     (if old = [] \<or> t = [] then t
      else if take (length old) t = old
           then new @ str_replace old new (drop (length old) t)
      else hd t # str_replace old new (tl t))"
  by pat_completeness auto
termination
  by (relation "measure (\<lambda>(old, new, t). length t)") (auto simp: neq_Nil_conv)

declare str_replace.simps [simp del]

definition close_doc :: "pdf \<Rightarrow> pdf" where
  "close_doc s =
     (let s1 = (if page s = 0 then add_page s else s)
      in (footer (s1\<lparr>in_footer := True\<rparr>))\<lparr>in_footer := False\<rparr>)"

fun resolve_prim :: "string \<Rightarrow> string \<Rightarrow> prim \<Rightarrow> prim" where
  "resolve_prim a v (Text tx ty tw th al t) = Text tx ty tw th al (str_replace a v t)"
| "resolve_prim a v p = p"

definition resolve_alias :: "string \<Rightarrow> string \<Rightarrow> draw \<Rightarrow> draw" where
  "resolve_alias a v d = d\<lparr>d_prim := resolve_prim a v (d_prim d)\<rparr>"

definition output_pdf :: "pdf \<Rightarrow> draw list" where
  "output_pdf s =
     (let s1 = close_doc s
      in (case str_alias_nb_pages s1 of
            None \<Rightarrow> out s1
          | Some a \<Rightarrow> map (resolve_alias a (str_nat (page s1))) (out s1)))"

text \<open>
  \<open>generate_report\<close> creates the object, registers the alias, sets the automatic
  page break 20 mm above the bottom, opens the first page (line 97), makes the calls of
  the report and writes the document.
\<close>

definition open_report ::
  "(string \<times> string \<times> real \<Rightarrow> real \<Rightarrow> string \<Rightarrow> string list) \<Rightarrow>
   (string \<times> string \<times> real \<Rightarrow> string \<Rightarrow> real) \<Rightarrow> pdf" where
  "open_report wl sw = add_page (set_auto_page_break True 20 (alias_nb_pages (RPGReport wl sw)))"

definition generate_report ::
  "(string \<times> string \<times> real \<Rightarrow> real \<Rightarrow> string \<Rightarrow> string list) \<Rightarrow>
   (string \<times> string \<times> real \<Rightarrow> string \<Rightarrow> real) \<Rightarrow> cmd list \<Rightarrow> draw list" where
  "generate_report wl sw content = output_pdf (run content (open_report wl sw))"

subsection \<open>Reading a render\<close>

text \<open>
  The primitives drawn between two states of the object, and the primitives that one
  origin drew on one page.
\<close>

definition new_draws :: "pdf \<Rightarrow> pdf \<Rightarrow> draw list" where
  "new_draws s s' = drop (length (out s)) (out s')"

definition page_draws :: "origin \<Rightarrow> nat \<Rightarrow> draw list \<Rightarrow> prim list" where
  "page_draws og p ds = map d_prim (filter (\<lambda>d. d_origin d = og \<and> d_page d = p) ds)"

definition body_draws :: "draw list \<Rightarrow> draw list" where
  "body_draws ds = filter (\<lambda>d. d_origin d = Body) ds"

text \<open>The style that the specification speaks of: font family, weight, size, text colour.\<close>

definition style :: "pdf \<Rightarrow> string \<times> string \<times> real \<times> rgb" where
  "style s = (font_family s, font_style s, font_size_pt s, text_color s)"

text \<open>
  The states in which the content code runs: a page is open, neither \<open>header\<close> nor
  \<open>footer\<close> is running, and one header line of 5 mm fits between the top margin and
  the trigger of the automatic page break (on a shorter page fpdf's \<open>header\<close> would
  ask for a page break itself, without end).
\<close>

definition ready :: "pdf \<Rightarrow> bool" where
  "ready s =
     (0 < page s \<and> \<not> in_footer s \<and> \<not> in_header s \<and>
      (t_margin s + 5 \<le> page_break_trigger s \<or> \<not> auto_page_break s))"

text \<open>The page geometry, which no method that the program calls after line 94 changes.\<close>

definition geom :: "pdf \<Rightarrow> real \<times> real \<times> real \<times> real \<times> real \<times> real \<times> bool" where
  "geom s = (pdf_w s, pdf_h s, l_margin s, r_margin s, t_margin s, b_margin s, auto_page_break s)"

text \<open>The primitives of one header and of one footer, on a page of the geometry of \<open>s\<close>.\<close>

definition header_prims :: "pdf \<Rightarrow> nat \<Rightarrow> prim list" where
  "header_prims s n =
     [Text (l_margin s) (t_margin s) (pdf_w s - r_margin s - l_margin s) 5 AlignL header_title,
      Text (pdf_w s - r_margin s) (t_margin s) 0 5 AlignR (page_label n),
      Line 10 13 200 13]"

definition footer_prims :: "pdf \<Rightarrow> prim list" where
  "footer_prims s =
     [Line 10 (pdf_h s - 15 - 2) 200 (pdf_h s - 15 - 2),
      Text (l_margin s) (pdf_h s - 15) (pdf_w s - r_margin s - l_margin s) 10 AlignC
        footer_caption]"

text \<open>
  The same with page, origin and look: header and footer draw their texts in Helvetica
  italic 8, gray, and their rule in the draw colour \<open>dc\<close>.
\<close>

definition hf_draw :: "nat \<Rightarrow> origin \<Rightarrow> rgb \<Rightarrow> prim \<Rightarrow> draw" where
  "hf_draw pg og dc p =
     \<lparr>d_page = pg, d_origin = og,
      d_look = (case p of Line x1 y1 x2 y2 \<Rightarrow> LineLook dc
                | _ \<Rightarrow> TextLook ''Helvetica'' ''I'' 8 (120, 120, 120)),
      d_prim = p\<rparr>"

definition footer_draws :: "pdf \<Rightarrow> draw list" where
  "footer_draws s = map (hf_draw (page s) Footer (draw_color s)) (footer_prims s)"

definition header_draws :: "pdf \<Rightarrow> draw list" where
  "header_draws s =
     map (hf_draw (Suc (page s)) Header (draw_color s)) (header_prims s (Suc (page s)))"

text \<open>
  What headers and footers have drawn, in order, when pages 1 to \<open>n\<close> have their header
  and pages 1 to \<open>n - 1\<close> their footer.
\<close>

definition hf_view :: "draw list \<Rightarrow> (nat \<times> origin \<times> prim) list" where
  "hf_view ds =
     map (\<lambda>d. (d_page d, d_origin d, d_prim d)) (filter (\<lambda>d. d_origin d \<noteq> Body) ds)"

definition page_head :: "pdf \<Rightarrow> nat \<Rightarrow> (nat \<times> origin \<times> prim) list" where
  "page_head s p = map (\<lambda>q. (p, Header, q)) (header_prims s p)"

definition page_foot :: "pdf \<Rightarrow> nat \<Rightarrow> (nat \<times> origin \<times> prim) list" where
  "page_foot s p = map (\<lambda>q. (p, Footer, q)) (footer_prims s)"

fun frames :: "pdf \<Rightarrow> nat \<Rightarrow> (nat \<times> origin \<times> prim) list" where
  "frames s 0 = []"
| "frames s (Suc 0) = page_head s (Suc 0)"
| "frames s (Suc (Suc n)) =
     frames s (Suc n) @ page_foot s (Suc n) @ page_head s (Suc (Suc n))"

text \<open>
  The invariant of a render that started from \<open>s0\<close>: the geometry and the alias are
  those of \<open>s0\<close>, the content code is running on an open page, every page so far has
  its header and every page but the current one its footer.
\<close>

definition doc_inv :: "pdf \<Rightarrow> pdf \<Rightarrow> bool" where
  "doc_inv s0 s =
     (geom s = geom s0 \<and> str_alias_nb_pages s = str_alias_nb_pages s0 \<and>
      0 < page s \<and> \<not> in_footer s \<and> \<not> in_header s \<and>
      hf_view (out s) = frames s0 (page s))"

text \<open>The text cells of a code block: one per line, 4.2 apart, from the top down.\<close>

fun code_texts :: "real \<Rightarrow> real \<Rightarrow> real \<Rightarrow> string list \<Rightarrow> prim list" where
  "code_texts tx tw ty [] = []"
| "code_texts tx tw ty (l # ls) = Text tx ty tw 4.2 AlignL l # code_texts tx tw (ty + 4.2) ls"

text \<open>The vertical extent of a primitive lies between two ordinates.\<close>

fun v_inside :: "real \<Rightarrow> real \<Rightarrow> prim \<Rightarrow> bool" where
  "v_inside lo hi (Text tx ty tw th al t) = (lo \<le> ty \<and> ty + th \<le> hi)"
| "v_inside lo hi (Line x1 y1 x2 y2) = (lo \<le> y1 \<and> y1 \<le> hi \<and> lo \<le> y2 \<and> y2 \<le> hi)"
| "v_inside lo hi (Rect rx ry rw rh sty) = (lo \<le> ry \<and> ry + rh \<le> hi)"

text \<open>Left edge, width and string of a text cell.\<close>

fun text_box :: "prim \<Rightarrow> (real \<times> real \<times> string) option" where
  "text_box (Text tx ty tw th al t) = Some (tx, tw, t)"
| "text_box p = None"

text \<open>The string of a text cell.\<close>

fun text_string :: "prim \<Rightarrow> string" where
  "text_string (Text tx ty tw th al t) = t"
| "text_string p = []"

text \<open>
  Sample font metrics for worked examples: every character is 2 mm wide and a text is
  never broken.
\<close>

definition plain_wrap :: "string \<times> string \<times> real \<Rightarrow> real \<Rightarrow> string \<Rightarrow> string list" where
  "plain_wrap f cw t = [t]"

definition plain_width :: "string \<times> string \<times> real \<Rightarrow> string \<Rightarrow> real" where
  "plain_width f t = 2 * real (length t)"

text \<open>
  The resolver as the specification words it (section 4.5): a placeholder of a reserved
  width, and a failure when the resolved value is wider. The program has neither.
\<close>

datatype error = ConfigurationError

definition spec_resolve_total :: "nat \<Rightarrow> nat \<Rightarrow> error + string" where
  "spec_resolve_total reserved n =
     (if reserved < length (str_nat n) then Inl ConfigurationError
      else Inr (replicate (reserved - length (str_nat n)) (CHR '' '') @ str_nat n))"

section \<open>Properties\<close>

subsection \<open>The methods of the library, field by field\<close>

lemma seq_Nil [simp]: "seq [] s = s" by (simp add: seq_def)
lemma seq_Cons [simp]: "seq (f # fs) s = seq fs (f s)" by (simp add: seq_def)

lemmas prim_defs = set_font_def set_text_color_def set_draw_color_def set_fill_color_def
  get_x_def get_y_def page_no_def set_x_def set_y_def set_xy_def ln_def line_def rect_def
  emit_def draw_of_def look_of_def render_cell_def Let_def

lemma footer_eq:
  "footer s = s\<lparr>pdf_x := pdf_w s - r_margin s, pdf_y := pdf_h s - 15,
      font_family := ''Helvetica'', font_style := ''I'', font_size_pt := 8,
      text_color := (120, 120, 120),
      out := out s @ map (hf_draw (page s) (origin_of s) (draw_color s)) (footer_prims s)\<rparr>"
  by (simp add: footer_def prim_defs hf_draw_def footer_prims_def origin_of_def)

lemma header_eq:
  "pdf_x s = l_margin s \<Longrightarrow> pdf_y s = t_margin s \<Longrightarrow>
   header s = s\<lparr>pdf_x := l_margin s, pdf_y := t_margin s + 5 + 4,
      font_family := ''Helvetica'', font_style := ''I'', font_size_pt := 8,
      text_color := (120, 120, 120),
      out := out s @ map (hf_draw (page s) (origin_of s) (draw_color s)) (header_prims s (page s))\<rparr>"
  by (simp add: header_def prim_defs hf_draw_def header_prims_def origin_of_def)

lemma restore_style_simps [simp]:
  "pdf_w (restore_style s0 s) = pdf_w s"
  "pdf_h (restore_style s0 s) = pdf_h s"
  "l_margin (restore_style s0 s) = l_margin s"
  "r_margin (restore_style s0 s) = r_margin s"
  "t_margin (restore_style s0 s) = t_margin s"
  "b_margin (restore_style s0 s) = b_margin s"
  "auto_page_break (restore_style s0 s) = auto_page_break s"
  "page (restore_style s0 s) = page s"
  "pdf_x (restore_style s0 s) = pdf_x s"
  "pdf_y (restore_style s0 s) = pdf_y s"
  "text_color (restore_style s0 s) = text_color s0"
  "draw_color (restore_style s0 s) = draw_color s0"
  "fill_color (restore_style s0 s) = fill_color s0"
  "in_footer (restore_style s0 s) = in_footer s"
  "in_header (restore_style s0 s) = in_header s"
  "str_alias_nb_pages (restore_style s0 s) = str_alias_nb_pages s"
  "wrap_lines (restore_style s0 s) = wrap_lines s"
  "string_width (restore_style s0 s) = string_width s"
  "out (restore_style s0 s) = out s"
  "font_family (restore_style s0 s) = (if font_family s0 = [] then font_family s else font_family s0)"
  "font_style (restore_style s0 s) = (if font_family s0 = [] then font_style s else font_style s0)"
  "font_size_pt (restore_style s0 s) = (if font_family s0 = [] then font_size_pt s else font_size_pt s0)"
  by (simp_all add: restore_style_def set_font_def Let_def)

lemma add_page_simps [simp]:
  "pdf_w (add_page s) = pdf_w s"
  "pdf_h (add_page s) = pdf_h s"
  "l_margin (add_page s) = l_margin s"
  "r_margin (add_page s) = r_margin s"
  "t_margin (add_page s) = t_margin s"
  "b_margin (add_page s) = b_margin s"
  "auto_page_break (add_page s) = auto_page_break s"
  "page (add_page s) = Suc (page s)"
  "pdf_x (add_page s) = l_margin s"
  "pdf_y (add_page s) = t_margin s + 5 + 4"
  "text_color (add_page s) = text_color s"
  "draw_color (add_page s) = draw_color s"
  "fill_color (add_page s) = fill_color s"
  "in_footer (add_page s) = (if 0 < page s then False else in_footer s)"
  "in_header (add_page s) = False"
  "str_alias_nb_pages (add_page s) = str_alias_nb_pages s"
  "wrap_lines (add_page s) = wrap_lines s"
  "string_width (add_page s) = string_width s"
  "font_family (add_page s) = (if font_family s = [] then ''Helvetica'' else font_family s)"
  "font_style (add_page s) = (if font_family s = [] then ''I'' else font_style s)"
  "font_size_pt (add_page s) = (if font_family s = [] then 8 else font_size_pt s)"
  by (simp_all add: add_page_def Let_def footer_eq header_eq)

lemma add_page_out:
  "\<not> in_footer s \<Longrightarrow>
   out (add_page s) = out s @ (if 0 < page s then footer_draws s else []) @ header_draws s"
  by (simp add: add_page_def Let_def footer_eq header_eq footer_draws_def header_draws_def
      origin_of_def footer_prims_def header_prims_def)


lemma render_cell_simps [simp]:
  "pdf_w (render_cell cw hh txt al nx ny s) = pdf_w s"
  "pdf_h (render_cell cw hh txt al nx ny s) = pdf_h s"
  "l_margin (render_cell cw hh txt al nx ny s) = l_margin s"
  "r_margin (render_cell cw hh txt al nx ny s) = r_margin s"
  "t_margin (render_cell cw hh txt al nx ny s) = t_margin s"
  "b_margin (render_cell cw hh txt al nx ny s) = b_margin s"
  "auto_page_break (render_cell cw hh txt al nx ny s) = auto_page_break s"
  "page (render_cell cw hh txt al nx ny s) = page s"
  "text_color (render_cell cw hh txt al nx ny s) = text_color s"
  "draw_color (render_cell cw hh txt al nx ny s) = draw_color s"
  "fill_color (render_cell cw hh txt al nx ny s) = fill_color s"
  "in_footer (render_cell cw hh txt al nx ny s) = in_footer s"
  "in_header (render_cell cw hh txt al nx ny s) = in_header s"
  "str_alias_nb_pages (render_cell cw hh txt al nx ny s) = str_alias_nb_pages s"
  "wrap_lines (render_cell cw hh txt al nx ny s) = wrap_lines s"
  "string_width (render_cell cw hh txt al nx ny s) = string_width s"
  "font_family (render_cell cw hh txt al nx ny s) = font_family s"
  "font_style (render_cell cw hh txt al nx ny s) = font_style s"
  "font_size_pt (render_cell cw hh txt al nx ny s) = font_size_pt s"
  by (simp_all add: render_cell_def emit_def Let_def)

lemma render_cell_cursor:
  "pdf_x (render_cell cw hh txt al nx ny s) =
     (case nx of X_RIGHT \<Rightarrow> pdf_x s + (if cw = 0 then pdf_w s - r_margin s - pdf_x s else cw)
      | X_LMARGIN \<Rightarrow> l_margin s | X_LEFT \<Rightarrow> pdf_x s)"
  "pdf_y (render_cell cw hh txt al nx ny s) =
     (case ny of Y_TOP \<Rightarrow> pdf_y s | Y_NEXT \<Rightarrow> pdf_y s + hh)"
  by (simp_all add: render_cell_def emit_def Let_def)

lemma render_cell_out:
  "out (render_cell cw hh txt al nx ny s) =
     out s @ [draw_of s (Text (pdf_x s) (pdf_y s)
        (if cw = 0 then pdf_w s - r_margin s - pdf_x s else cw) hh al txt)]"
  by (simp add: render_cell_def emit_def Let_def)

lemma perform_page_break_simps [simp]:
  "pdf_w (perform_page_break s) = pdf_w s"
  "pdf_h (perform_page_break s) = pdf_h s"
  "l_margin (perform_page_break s) = l_margin s"
  "r_margin (perform_page_break s) = r_margin s"
  "t_margin (perform_page_break s) = t_margin s"
  "b_margin (perform_page_break s) = b_margin s"
  "auto_page_break (perform_page_break s) = auto_page_break s"
  "page (perform_page_break s) = Suc (page s)"
  "pdf_x (perform_page_break s) = pdf_x s"
  "pdf_y (perform_page_break s) = t_margin s + 5 + 4"
  "text_color (perform_page_break s) = text_color s"
  "draw_color (perform_page_break s) = draw_color s"
  "fill_color (perform_page_break s) = fill_color s"
  "in_footer (perform_page_break s) = (if 0 < page s then False else in_footer s)"
  "in_header (perform_page_break s) = False"
  "str_alias_nb_pages (perform_page_break s) = str_alias_nb_pages s"
  "wrap_lines (perform_page_break s) = wrap_lines s"
  "string_width (perform_page_break s) = string_width s"
  "font_family (perform_page_break s) = (if font_family s = [] then ''Helvetica'' else font_family s)"
  "font_style (perform_page_break s) = (if font_family s = [] then ''I'' else font_style s)"
  "font_size_pt (perform_page_break s) = (if font_family s = [] then 8 else font_size_pt s)"
  "out (perform_page_break s) = out (add_page s)"
  by (simp_all add: perform_page_break_def Let_def)

lemma cell_simps [simp]:
  "pdf_w (cell cw hh txt al nx ny s) = pdf_w s"
  "pdf_h (cell cw hh txt al nx ny s) = pdf_h s"
  "l_margin (cell cw hh txt al nx ny s) = l_margin s"
  "r_margin (cell cw hh txt al nx ny s) = r_margin s"
  "t_margin (cell cw hh txt al nx ny s) = t_margin s"
  "b_margin (cell cw hh txt al nx ny s) = b_margin s"
  "auto_page_break (cell cw hh txt al nx ny s) = auto_page_break s"
  "text_color (cell cw hh txt al nx ny s) = text_color s"
  "draw_color (cell cw hh txt al nx ny s) = draw_color s"
  "fill_color (cell cw hh txt al nx ny s) = fill_color s"
  "str_alias_nb_pages (cell cw hh txt al nx ny s) = str_alias_nb_pages s"
  "wrap_lines (cell cw hh txt al nx ny s) = wrap_lines s"
  "string_width (cell cw hh txt al nx ny s) = string_width s"
  "in_header (cell cw hh txt al nx ny s) = (if will_page_break hh s then False else in_header s)"
  "in_footer (cell cw hh txt al nx ny s) = in_footer s"
  "page (cell cw hh txt al nx ny s) = (if will_page_break hh s then Suc (page s) else page s)"
  by (simp_all add: cell_def will_page_break_def)

lemma cell_font:
  "font_family s \<noteq> [] \<Longrightarrow> font_family (cell cw hh txt al nx ny s) = font_family s"
  "font_family s \<noteq> [] \<Longrightarrow> font_style (cell cw hh txt al nx ny s) = font_style s"
  "font_family s \<noteq> [] \<Longrightarrow> font_size_pt (cell cw hh txt al nx ny s) = font_size_pt s"
  by (simp_all add: cell_def)

lemma cell_pdf_x:
  "pdf_x (cell cw hh txt al nx ny s) =
     (case nx of X_RIGHT \<Rightarrow> pdf_x s + (if cw = 0 then pdf_w s - r_margin s - pdf_x s else cw)
      | X_LMARGIN \<Rightarrow> l_margin s | X_LEFT \<Rightarrow> pdf_x s)"
  by (cases nx) (simp_all add: cell_def render_cell_cursor)

lemma cell_nobreak: "\<not> will_page_break hh s \<Longrightarrow> cell cw hh txt al nx ny s = render_cell cw hh txt al nx ny s"
  by (simp add: cell_def)

lemma ready_cell: "ready s \<Longrightarrow> ready (cell cw hh txt al nx ny s)"
  by (simp add: ready_def page_break_trigger_def)

subsection \<open>The dot leader of the table of contents\<close>

lemma py_str_mul_dot:
  "py_str_mul ''.'' k = replicate (nat k) (CHR ''.'')"
proof (cases "k \<le> 0")
  case True
  then show ?thesis by (simp add: py_str_mul_def)
next
  case False
  have "concat (replicate n ''.'') = replicate n (CHR ''.'')" for n
    by (induction n) simp_all
  with False show ?thesis by (simp add: py_str_mul_def)
qed

subsection \<open>The style after a renderer\<close>

lemma simple_fields [simp]:
  "font_family (ln hh s) = font_family s" "font_style (ln hh s) = font_style s"
  "font_size_pt (ln hh s) = font_size_pt s" "text_color (ln hh s) = text_color s"
  "font_family (set_x v s) = font_family s" "font_style (set_x v s) = font_style s"
  "font_size_pt (set_x v s) = font_size_pt s" "text_color (set_x v s) = text_color s"
  "font_family (set_xy vx vy s) = font_family s" "font_style (set_xy vx vy s) = font_style s"
  "font_size_pt (set_xy vx vy s) = font_size_pt s" "text_color (set_xy vx vy s) = text_color s"
  "font_family (emit p s) = font_family s" "font_style (emit p s) = font_style s"
  "font_size_pt (emit p s) = font_size_pt s" "text_color (emit p s) = text_color s"
  "font_family (set_font fam sty sz s) = fam" "font_style (set_font fam sty sz s) = sty"
  "font_size_pt (set_font fam sty sz s) = sz" "text_color (set_font fam sty sz s) = text_color s"
  "font_family (set_text_color r g b s) = font_family s"
  "font_style (set_text_color r g b s) = font_style s"
  "font_size_pt (set_text_color r g b s) = font_size_pt s"
  "text_color (set_text_color r g b s) = (r, g, b)"
  "font_family (set_draw_color r g b s) = font_family s"
  "font_style (set_draw_color r g b s) = font_style s"
  "font_size_pt (set_draw_color r g b s) = font_size_pt s"
  "text_color (set_draw_color r g b s) = text_color s"
  "font_family (set_fill_color r g b s) = font_family s"
  "font_style (set_fill_color r g b s) = font_style s"
  "font_size_pt (set_fill_color r g b s) = font_size_pt s"
  "text_color (set_fill_color r g b s) = text_color s"
  by (simp_all add: prim_defs)

lemma style_eq_iff:
  "style s' = style s \<longleftrightarrow> font_family s' = font_family s \<and> font_style s' = font_style s
     \<and> font_size_pt s' = font_size_pt s \<and> text_color s' = text_color s"
  by (auto simp: style_def)

lemma style_cell: "font_family s \<noteq> [] \<Longrightarrow> style (cell cw hh txt al nx ny s) = style s"
  by (simp add: style_eq_iff cell_font)

lemma style_multi_cell_lines:
  "font_family s \<noteq> [] \<Longrightarrow> style (multi_cell_lines cw hh ls s) = style s"
proof (induction cw hh ls s rule: multi_cell_lines.induct)
  case (1 cw hh s)
  then show ?case by simp
next
  case (2 cw hh l s)
  then show ?case by (simp add: style_cell)
next
  case (3 cw hh l v va s)
  have "font_family (cell cw hh l AlignJ X_LEFT Y_NEXT s) \<noteq> []"
    using 3(2) by (simp add: cell_font)
  then have "style (multi_cell_lines cw hh (v # va) (cell cw hh l AlignJ X_LEFT Y_NEXT s)) =
      style (cell cw hh l AlignJ X_LEFT Y_NEXT s)"
    by (rule 3(1))
  then show ?case using 3(2) by (simp add: style_cell)
qed

lemma style_multi_cell:
  "font_family s \<noteq> [] \<Longrightarrow> style (multi_cell cw hh txt s) = style s"
  by (simp add: multi_cell_def Let_def style_multi_cell_lines)

lemma style_code_line: "font_family s \<noteq> [] \<Longrightarrow> style (code_line x0 l s) = style s"
  using style_cell [of s 0 "4.2" l AlignL X_LMARGIN Y_NEXT]
  by (simp add: code_line_def style_eq_iff)

lemma style_fold_code_line:
  "font_family s \<noteq> [] \<Longrightarrow> style (fold (code_line x0) ls s) = style s"
proof (induction ls arbitrary: s)
  case Nil
  then show ?case by simp
next
  case (Cons l ls)
  have "font_family (code_line x0 l s) \<noteq> []"
    using style_code_line [OF Cons.prems, of x0 l] Cons.prems by (simp add: style_eq_iff)
  then show ?case using Cons.IH [of "code_line x0 l s"] style_code_line [OF Cons.prems, of x0 l]
    by simp
qed

lemma style_simple:
  "style (ln hh s) = style s" "style (set_x v s) = style s" "style (set_xy vx vy s) = style s"
  "style (emit p s) = style s" "style (set_draw_color r g b s) = style s"
  "style (set_fill_color r g b s) = style s"
  "style (line x1 y1 x2 y2 s) = style s" "style (rect rx ry rw rh sty s) = style s"
  by (simp_all add: style_eq_iff line_def rect_def)

lemma style_add_page: "font_family s \<noteq> [] \<Longrightarrow> style (add_page s) = style s"
  by (simp add: style_eq_iff)

lemma style_set:
  "style (set_text_color r g b (set_font fam sty sz s)) = (fam, sty, sz, (r, g, b))"
  by (simp add: style_def)

lemma family_of_style: "style s = (fam, r) \<Longrightarrow> fam \<noteq> [] \<Longrightarrow> font_family s \<noteq> []"
  by (auto simp: style_def)

lemma style_body_text: "style (body_text txt s) = (''Helvetica'', [], 10, (30, 30, 30))"
  by (simp add: body_text_def style_simple style_multi_cell) (simp add: style_def)

lemma style_bullet_point: "style (bullet_point txt indent s) = (''Helvetica'', [], 10, (30, 30, 30))"
  by (simp add: bullet_point_def style_simple style_multi_cell) (simp add: style_def)

lemma style_bold_text: "style (bold_text label txt s) = (''Helvetica'', [], 10, (30, 30, 30))"
  by (simp add: bold_text_def style_multi_cell) (simp add: style_def)

lemma style_chapter_title:
  "style (chapter_title title level s) =
     (if level = 1 then (''Helvetica'', ''B'', 16, (25, 55, 120))
      else if level = 2 then (''Helvetica'', ''B'', 13, (40, 80, 150))
      else if level = 3 then (''Helvetica'', ''B'', 11, (60, 100, 170))
      else style s)"
proof -
  have c: "style (cell cw hh t al nx ny (ln h1 (set_text_color r g b (set_font ''Helvetica'' ''B'' sz s))))
      = (''Helvetica'', ''B'', sz, (r, g, b))" for cw hh t al nx ny h1 r g b sz
    by (subst style_cell) (simp_all add: style_def)
  show ?thesis
    by (simp add: chapter_title_def style_simple c)
qed

lemma style_code_block: "style (code_block code s) = (''Courier'', [], 8, (40, 40, 40))"
proof -
  let ?s1 = "seq [set_font ''Courier'' [] 8, set_fill_color 240 240 245,
                  set_text_color 40 40 40, set_draw_color 200 200 210] s"
  have s1: "style ?s1 = (''Courier'', [], 8, (40, 40, 40))" by (simp add: style_def)
  have f1: "font_family ?s1 \<noteq> []" by simp
  have "style (code_block code s) = style ?s1"
    apply (simp only: code_block_def Let_def)
    apply (simp only: style_simple)
    apply (subst style_fold_code_line)
     apply (simp add: set_xy_def set_x_def set_y_def rect_def emit_def split: if_splits)
    apply (simp add: style_simple style_add_page split: if_splits)
    done
  with s1 show ?thesis by simp
qed

lemma open_report_fields [simp]:
  "page (open_report wl sw) = 1"
  "pdf_w (open_report wl sw) = 595.28 * 25.4 / 72"
  "pdf_h (open_report wl sw) = 841.89 * 25.4 / 72"
  "l_margin (open_report wl sw) = 10"
  "r_margin (open_report wl sw) = 10"
  "t_margin (open_report wl sw) = 10"
  "b_margin (open_report wl sw) = 20"
  "auto_page_break (open_report wl sw)"
  "pdf_x (open_report wl sw) = 10"
  "pdf_y (open_report wl sw) = 19"
  "font_family (open_report wl sw) = ''Helvetica''"
  "font_style (open_report wl sw) = ''I''"
  "font_size_pt (open_report wl sw) = 8"
  "text_color (open_report wl sw) = (0, 0, 0)"
  "draw_color (open_report wl sw) = (0, 0, 0)"
  "fill_color (open_report wl sw) = (0, 0, 0)"
  "\<not> in_footer (open_report wl sw)"
  "\<not> in_header (open_report wl sw)"
  "str_alias_nb_pages (open_report wl sw) = Some ''{nb}''"
  "wrap_lines (open_report wl sw) = wl"
  "string_width (open_report wl sw) = sw"
  by (simp_all add: open_report_def RPGReport_def alias_nb_pages_def set_auto_page_break_def)

lemma ready_open_report: "ready (open_report wl sw)"
  by (simp add: ready_def page_break_trigger_def)

text \<open>
  Claim C7, as the program has it. No renderer restores the style: each one selects its own
  font and text colour when it starts and leaves them selected when it returns. After
  \<open>chapter_title\<close> of level 1, 2, 3 the style is Helvetica bold 16, 13, 11 in the
  colour of the heading; after \<open>body_text\<close>, \<open>bullet_point\<close> and
  \<open>bold_text\<close> Helvetica regular 10, colour (30, 30, 30); after \<open>code_block\<close>
  Courier regular 8, colour (40, 40, 40): whatever the style was before, and whatever
  page breaks happened on the way.
\<close>

theorem renderers_leave_their_style:
  assumes "ready s"
  shows "style (chapter_title title 1 s) = (''Helvetica'', ''B'', 16, (25, 55, 120))
    \<and> style (chapter_title title 2 s) = (''Helvetica'', ''B'', 13, (40, 80, 150))
    \<and> style (chapter_title title 3 s) = (''Helvetica'', ''B'', 11, (60, 100, 170))
    \<and> style (body_text t s) = (''Helvetica'', [], 10, (30, 30, 30))
    \<and> style (bullet_point t indent s) = (''Helvetica'', [], 10, (30, 30, 30))
    \<and> style (code_block code s) = (''Courier'', [], 8, (40, 40, 40))
    \<and> style (bold_text label t s) = (''Helvetica'', [], 10, (30, 30, 30))"
  by (simp add: style_chapter_title style_body_text style_bullet_point style_code_block
      style_bold_text)

text \<open>The theorem of claim C7 on the first page of a report.\<close>

theorem renderers_leave_their_style_witness:
  "ready (open_report plain_wrap plain_width)
   \<and> style (open_report plain_wrap plain_width) = (''Helvetica'', ''I'', 8, (0, 0, 0))
   \<and> style (code_block ''int x;'' (open_report plain_wrap plain_width))
       = (''Courier'', [], 8, (40, 40, 40))
   \<and> style (body_text ''abc'' (open_report plain_wrap plain_width))
       = (''Helvetica'', [], 10, (30, 30, 30))"
  using renderers_leave_their_style [where s = "open_report plain_wrap plain_width"
      and title = "''T''" and t = "''abc''" and indent = 10 and code = "''int x;''"
      and label = "''k''"]
  by (simp add: ready_open_report style_def)

text \<open>
  Claim C7 as stated fails: a paragraph after a heading of level 1 leaves a style that is
  not the one it found.
\<close>

theorem style_not_restored_counterexample:
  "style (body_text ''abc'' (chapter_title ''Intro'' 1 (open_report plain_wrap plain_width)))
     \<noteq> style (chapter_title ''Intro'' 1 (open_report plain_wrap plain_width))"
  by (simp add: style_body_text style_chapter_title)

subsection \<open>Headers and footers of a whole report\<close>

lemma hf_view_append [simp]: "hf_view (a @ b) = hf_view a @ hf_view b"
  by (simp add: hf_view_def)

lemma hf_view_Nil [simp]: "hf_view [] = []"
  by (simp add: hf_view_def)

lemma hf_view_body [simp]:
  "\<not> in_footer s \<Longrightarrow> \<not> in_header s \<Longrightarrow> hf_view [draw_of s p] = []"
  by (simp add: hf_view_def draw_of_def origin_of_def)

lemma hf_view_footer_draws [simp]: "hf_view (footer_draws s) = page_foot s (page s)"
  by (simp add: hf_view_def footer_draws_def page_foot_def hf_draw_def footer_prims_def)

lemma hf_view_header_draws [simp]: "hf_view (header_draws s) = page_head s (Suc (page s))"
  by (simp add: hf_view_def header_draws_def page_head_def hf_draw_def header_prims_def)

lemma geom_frame:
  "geom s = geom s0 \<Longrightarrow> page_foot s = page_foot s0"
  "geom s = geom s0 \<Longrightarrow> page_head s = page_head s0"
  by (auto simp: geom_def page_foot_def page_head_def footer_prims_def header_prims_def fun_eq_iff)

lemma frames_Suc: "0 < n \<Longrightarrow> frames s (Suc n) = frames s n @ page_foot s n @ page_head s (Suc n)"
  by (cases n) simp_all

lemma geom_simps [simp]:
  "geom (add_page s) = geom s"
  "geom (render_cell cw hh t al nx ny s) = geom s"
  "geom (cell cw hh t al nx ny s) = geom s"
  "geom (emit p s) = geom s"
  "geom (ln hh s) = geom s"
  "geom (set_x v s) = geom s"
  "geom (set_xy vx vy s) = geom s"
  "geom (set_font fam sty sz s) = geom s"
  "geom (set_text_color r g b s) = geom s"
  "geom (set_draw_color r g b s) = geom s"
  "geom (set_fill_color r g b s) = geom s"
  by (simp_all add: geom_def prim_defs)

lemma doc_inv_add_page [simp]:
  assumes "doc_inv s0 s"
  shows "doc_inv s0 (add_page s)"
proof -
  from assms have g: "geom s = geom s0" and p: "0 < page s" and f: "\<not> in_footer s"
    and v: "hf_view (out s) = frames s0 (page s)"
    and a: "str_alias_nb_pages s = str_alias_nb_pages s0"
    by (simp_all add: doc_inv_def)
  have pf: "page_foot s = page_foot s0" and ph: "page_head s = page_head s0"
    using g by (rule geom_frame)+
  have "hf_view (out (add_page s)) = frames s0 (Suc (page s))"
    using p f v by (simp add: add_page_out frames_Suc pf ph)
  then show ?thesis
    using g a p by (simp add: doc_inv_def)
qed

lemma doc_inv_simple [simp]:
  "doc_inv s0 (ln hh s) = doc_inv s0 s"
  "doc_inv s0 (set_x v s) = doc_inv s0 s"
  "doc_inv s0 (set_xy vx vy s) = doc_inv s0 s"
  "doc_inv s0 (set_font fam sty sz s) = doc_inv s0 s"
  "doc_inv s0 (set_text_color r g b s) = doc_inv s0 s"
  "doc_inv s0 (set_draw_color r g b s) = doc_inv s0 s"
  "doc_inv s0 (set_fill_color r g b s) = doc_inv s0 s"
  by (simp_all add: doc_inv_def geom_def prim_defs)

lemma doc_inv_emit [simp]: "doc_inv s0 s \<Longrightarrow> doc_inv s0 (emit p s)"
  by (simp add: doc_inv_def) (simp add: emit_def)

lemma doc_inv_line_rect [simp]:
  "doc_inv s0 s \<Longrightarrow> doc_inv s0 (line x1 y1 x2 y2 s)"
  "doc_inv s0 s \<Longrightarrow> doc_inv s0 (rect rx ry rw rh sty s)"
  by (simp_all add: line_def rect_def)

lemma doc_inv_render_cell [simp]:
  "doc_inv s0 s \<Longrightarrow> doc_inv s0 (render_cell cw hh t al nx ny s)"
  by (simp add: doc_inv_def render_cell_out)

lemma doc_inv_perform_page_break [simp]:
  "doc_inv s0 s \<Longrightarrow> doc_inv s0 (perform_page_break s)"
  using doc_inv_add_page [of s0 s]
  by (simp add: doc_inv_def geom_def)

lemma doc_inv_cell [simp]: "doc_inv s0 s \<Longrightarrow> doc_inv s0 (cell cw hh t al nx ny s)"
  by (simp add: cell_def)

lemma doc_inv_multi_cell_lines [simp]:
  "doc_inv s0 s \<Longrightarrow> doc_inv s0 (multi_cell_lines cw hh ls s)"
  by (induction cw hh ls s rule: multi_cell_lines.induct) simp_all

lemma doc_inv_multi_cell [simp]: "doc_inv s0 s \<Longrightarrow> doc_inv s0 (multi_cell cw hh t s)"
  by (simp add: multi_cell_def Let_def)

lemma doc_inv_code_line [simp]: "doc_inv s0 s \<Longrightarrow> doc_inv s0 (code_line x0 l s)"
  by (simp add: code_line_def)

lemma doc_inv_fold_code_line [simp]:
  "doc_inv s0 s \<Longrightarrow> doc_inv s0 (fold (code_line x0) ls s)"
  by (induction ls arbitrary: s) simp_all

lemma doc_inv_chapter_title [simp]: "doc_inv s0 s \<Longrightarrow> doc_inv s0 (chapter_title title level s)"
  by (simp add: chapter_title_def)

lemma doc_inv_body_text [simp]: "doc_inv s0 s \<Longrightarrow> doc_inv s0 (body_text t s)"
  by (simp add: body_text_def)

lemma doc_inv_bullet_point [simp]: "doc_inv s0 s \<Longrightarrow> doc_inv s0 (bullet_point t indent s)"
  by (simp add: bullet_point_def)

lemma doc_inv_bold_text [simp]: "doc_inv s0 s \<Longrightarrow> doc_inv s0 (bold_text label t s)"
  by (simp add: bold_text_def)

lemma doc_inv_code_block [simp]: "doc_inv s0 s \<Longrightarrow> doc_inv s0 (code_block code s)"
  by (simp add: code_block_def Let_def)

lemma doc_inv_exec [simp]: "doc_inv s0 s \<Longrightarrow> doc_inv s0 (exec c s)"
  by (cases c) simp_all

lemma doc_inv_run [simp]: "doc_inv s0 s \<Longrightarrow> doc_inv s0 (run cmds s)"
  unfolding run_def by (induction cmds arbitrary: s) simp_all

lemma close_doc_out: "0 < page s \<Longrightarrow> out (close_doc s) = out s @ footer_draws s"
  by (simp add: close_doc_def Let_def footer_eq footer_draws_def origin_of_def footer_prims_def)

lemma close_doc_fields:
  "0 < page s \<Longrightarrow> page (close_doc s) = page s"
  "0 < page s \<Longrightarrow> str_alias_nb_pages (close_doc s) = str_alias_nb_pages s"
  by (simp_all add: close_doc_def Let_def footer_eq)

lemma open_report_out:
  "out (open_report wl sw) = header_draws (set_auto_page_break True 20 (alias_nb_pages (RPGReport wl sw)))"
proof -
  let ?i = "set_auto_page_break True 20 (alias_nb_pages (RPGReport wl sw))"
  have f: "\<not> in_footer ?i" and p: "page ?i = 0" and o: "out ?i = []"
    by (simp_all add: RPGReport_def alias_nb_pages_def set_auto_page_break_def)
  show ?thesis
    unfolding open_report_def using add_page_out [OF f] p o by simp
qed

lemma doc_inv_open_report: "doc_inv (open_report wl sw) (open_report wl sw)"
proof -
  let ?i = "set_auto_page_break True 20 (alias_nb_pages (RPGReport wl sw))"
  have g: "geom ?i = geom (open_report wl sw)"
    by (simp add: geom_def) (simp add: RPGReport_def alias_nb_pages_def set_auto_page_break_def)
  have p: "page ?i = 0"
    by (simp add: RPGReport_def alias_nb_pages_def set_auto_page_break_def)
  have "hf_view (out (open_report wl sw)) = page_head (open_report wl sw) (Suc 0)"
    using geom_frame(2) [OF g] by (simp add: open_report_out p)
  then show ?thesis by (simp add: doc_inv_def)
qed

lemma doc_inv_report: "doc_inv (open_report wl sw) (run content (open_report wl sw))"
  by (simp add: doc_inv_open_report)

lemma page_draws_hf_view:
  "og \<noteq> Body \<Longrightarrow> page_draws og p ds =
     map (\<lambda>(pg, og', q). q) (filter (\<lambda>(pg, og', q). og' = og \<and> pg = p) (hf_view ds))"
  by (induction ds) (auto simp: page_draws_def hf_view_def)

lemma pick_head:
  "map (\<lambda>(pg, og', q). q) (filter (\<lambda>(pg, og', q). og' = Header \<and> pg = p) (page_head s n)) =
     (if p = n then header_prims s n else [])"
  "map (\<lambda>(pg, og', q). q) (filter (\<lambda>(pg, og', q). og' = Footer \<and> pg = p) (page_head s n)) = []"
  by (simp_all add: page_head_def header_prims_def)

lemma pick_foot:
  "map (\<lambda>(pg, og', q). q) (filter (\<lambda>(pg, og', q). og' = Footer \<and> pg = p) (page_foot s n)) =
     (if p = n then footer_prims s else [])"
  "map (\<lambda>(pg, og', q). q) (filter (\<lambda>(pg, og', q). og' = Header \<and> pg = p) (page_foot s n)) = []"
  by (simp_all add: page_foot_def footer_prims_def)

lemma frames_header:
  "map (\<lambda>(pg, og', q). q) (filter (\<lambda>(pg, og', q). og' = Header \<and> pg = p) (frames s n)) =
     (if 1 \<le> p \<and> p \<le> n then header_prims s p else [])"
  by (induction s n rule: frames.induct) (auto simp: pick_head pick_foot)

lemma frames_footer:
  "map (\<lambda>(pg, og', q). q) (filter (\<lambda>(pg, og', q). og' = Footer \<and> pg = p) (frames s n)) =
     (if 1 \<le> p \<and> Suc p \<le> n then footer_prims s else [])"
  by (induction s n rule: frames.induct) (auto simp: pick_head pick_foot)

lemma closed_report_view:
  assumes "doc_inv s0 s"
  shows "hf_view (out (close_doc s)) = frames s0 (page s) @ page_foot s0 (page s)"
proof -
  from assms have g: "geom s = geom s0" and p: "0 < page s"
    and v: "hf_view (out s) = frames s0 (page s)"
    by (simp_all add: doc_inv_def)
  show ?thesis using p v geom_frame(1) [OF g] by (simp add: close_doc_out)
qed

lemma closed_report_headers:
  assumes "doc_inv s0 s"
  shows "page_draws Header p (out (close_doc s)) =
     (if 1 \<le> p \<and> p \<le> page s then header_prims s0 p else [])"
  by (simp add: page_draws_hf_view closed_report_view [OF assms] frames_header pick_foot)

lemma closed_report_footers:
  assumes "doc_inv s0 s"
  shows "page_draws Footer p (out (close_doc s)) =
     (if 1 \<le> p \<and> p \<le> page s then footer_prims s0 else [])"
proof -
  from assms have "0 < page s" by (simp add: doc_inv_def)
  then show ?thesis
    by (auto simp: page_draws_hf_view closed_report_view [OF assms] frames_footer pick_foot)
qed

subsection \<open>The header label and the total number of pages\<close>

lemma digit_char_cases:
  "d < 10 \<Longrightarrow> digit_char d \<in> set ''0123456789''"
proof -
  assume "d < 10"
  then have "d = 0 \<or> d = 1 \<or> d = 2 \<or> d = 3 \<or> d = 4 \<or> d = 5 \<or> d = 6 \<or> d = 7 \<or> d = 8 \<or> d = 9"
    by arith
  then show ?thesis by (auto simp: digit_char_def)
qed

lemma str_nat_no_brace: "CHR ''{'' \<notin> set (str_nat n)"
proof (induction n rule: str_nat.induct)
  case (1 n)
  show ?case
  proof (cases "n < 10")
    case True
    then show ?thesis using digit_char_cases [of n] by (subst str_nat.simps) auto
  next
    case False
    have "n mod 10 < 10" by simp
    then have "digit_char (n mod 10) \<noteq> CHR ''{''" using digit_char_cases [of "n mod 10"] by auto
    with False 1 show ?thesis by (subst str_nat.simps) simp
  qed
qed

lemma str_replace_absent: "CHR ''{'' \<notin> set t \<Longrightarrow> str_replace ''{nb}'' v t = t"
proof (induction t)
  case Nil
  then show ?case by (simp add: str_replace.simps)
next
  case (Cons c cs)
  then have ne: "c \<noteq> CHR ''{''" and ih: "str_replace ''{nb}'' v cs = cs" by auto
  show ?case by (subst str_replace.simps) (simp add: ne ih)
qed

lemma str_replace_at_end:
  "CHR ''{'' \<notin> set pre \<Longrightarrow> str_replace ''{nb}'' v (pre @ ''{nb}'') = pre @ v"
proof (induction pre)
  case Nil
  show ?case by (subst str_replace.simps) (simp add: str_replace.simps)
next
  case (Cons c cs)
  then have ne: "c \<noteq> CHR ''{''" and ih: "str_replace ''{nb}'' v (cs @ ''{nb}'') = cs @ v"
    by auto
  show ?case by (subst str_replace.simps) (simp add: ne ih)
qed

lemma resolve_page_label:
  "str_replace ''{nb}'' v (page_label p) = ''Page '' @ str_nat p @ ''/'' @ v"
  using str_replace_at_end [of "''Page '' @ str_nat p @ ''/''" v] str_nat_no_brace [of p]
  by (simp add: page_label_def)

lemma resolve_fixed_texts:
  "str_replace ''{nb}'' v header_title = header_title"
  "str_replace ''{nb}'' v footer_caption = footer_caption"
  by (rule str_replace_absent, simp add: header_title_def footer_caption_def)+

lemma page_draws_resolve:
  "page_draws og p (map (resolve_alias a v) ds) = map (resolve_prim a v) (page_draws og p ds)"
  by (induction ds) (simp_all add: page_draws_def resolve_alias_def)

lemma generate_report_eq:
  "generate_report wl sw content =
     map (resolve_alias ''{nb}'' (str_nat (page (run content (open_report wl sw)))))
       (out (close_doc (run content (open_report wl sw))))"
proof -
  have "doc_inv (open_report wl sw) (run content (open_report wl sw))"
    by (rule doc_inv_report)
  then have "0 < page (run content (open_report wl sw))"
    and "str_alias_nb_pages (run content (open_report wl sw)) = Some ''{nb}''"
    by (simp_all add: doc_inv_def)
  then show ?thesis
    by (simp add: generate_report_def output_pdf_def Let_def close_doc_fields)
qed

lemma header_prims_report:
  "header_prims (open_report wl sw) p =
     [Text 10 10 (595.28 * 25.4 / 72 - 20) 5 AlignL header_title,
      Text (595.28 * 25.4 / 72 - 10) 10 0 5 AlignR (page_label p),
      Line 10 13 200 13]"
  by (simp add: header_prims_def)

lemma footer_prims_report:
  "footer_prims (open_report wl sw) =
     [Line 10 (841.89 * 25.4 / 72 - 17) 200 (841.89 * 25.4 / 72 - 17),
      Text 10 (841.89 * 25.4 / 72 - 15) (595.28 * 25.4 / 72 - 20) 10 AlignC footer_caption]"
  by (simp add: footer_prims_def)

lemma report_headers_unresolved:
  assumes "1 \<le> p" and "p \<le> page (run content (open_report wl sw))"
  shows "page_draws Header p (out (close_doc (run content (open_report wl sw)))) =
     [Text 10 10 (595.28 * 25.4 / 72 - 20) 5 AlignL header_title,
      Text (595.28 * 25.4 / 72 - 10) 10 0 5 AlignR (page_label p),
      Line 10 13 200 13]"
  using assms
  by (simp add: closed_report_headers [OF doc_inv_report] header_prims_report)

lemma report_headers_resolved:
  assumes "1 \<le> p" and "p \<le> page (run content (open_report wl sw))"
  shows "page_draws Header p (generate_report wl sw content) =
     [Text 10 10 (595.28 * 25.4 / 72 - 20) 5 AlignL header_title,
      Text (595.28 * 25.4 / 72 - 10) 10 0 5 AlignR
        (''Page '' @ str_nat p @ ''/'' @ str_nat (page (run content (open_report wl sw)))),
      Line 10 13 200 13]"
  using assms
  by (simp add: generate_report_eq page_draws_resolve closed_report_headers [OF doc_inv_report]
      header_prims_report resolve_page_label resolve_fixed_texts)

lemma page_run_add_pages: "page (run (replicate k AddPage) s) = page s + k"
  unfolding run_def by (induction k arbitrary: s) simp_all

lemma str_nat_small:
  "str_nat 1 = ''1''" "str_nat 2 = ''2''" "str_nat 3 = ''3''" "str_nat 150 = ''150''"
  "str_nat (Suc 0) = ''1''" "str_nat (Suc (Suc 0)) = ''2''" "str_nat (Suc (Suc (Suc 0))) = ''3''"
  by (simp_all add: str_nat.simps digit_char_def)

text \<open>
  Claim C4. On every page \<open>p\<close> of a report, whatever its content, the header is the
  running title, then the label \<open>Page p/{nb}\<close> (the 1-indexed number of the page, a
  slash and the alias of the total, still unresolved before \<open>output\<close>), then the
  rule from (10, 13) to (200, 13); nothing else is drawn by \<open>header\<close> on the page.
\<close>

theorem header_label_on_every_page:
  assumes "1 \<le> p" and "p \<le> page (run content (open_report wl sw))"
  shows "page_draws Header p (out (close_doc (run content (open_report wl sw)))) =
     [Text 10 10 (595.28 * 25.4 / 72 - 20) 5 AlignL ''TP3 - Hexagone 2026 | Mathias Kowalski'',
      Text (595.28 * 25.4 / 72 - 10) 10 0 5 AlignR (''Page '' @ str_nat p @ ''/{nb}''),
      Line 10 13 200 13]"
  using report_headers_unresolved [OF assms] by (simp add: header_title_def page_label_def)

text \<open>The second page of a report of two pages.\<close>

theorem header_label_on_every_page_witness:
  "(1::nat) \<le> 2 \<and> 2 \<le> page (run [AddPage] (open_report plain_wrap plain_width))
   \<and> page_draws Header 2 (out (close_doc (run [AddPage] (open_report plain_wrap plain_width)))) =
     [Text 10 10 (595.28 * 25.4 / 72 - 20) 5 AlignL ''TP3 - Hexagone 2026 | Mathias Kowalski'',
      Text (595.28 * 25.4 / 72 - 10) 10 0 5 AlignR ''Page 2/{nb}'',
      Line 10 13 200 13]"
  using header_label_on_every_page [of 2 "[AddPage]" plain_wrap plain_width]
  by (simp add: run_def str_nat_small)

text \<open>
  Claim C2, as the program has it. \<open>output\<close> replaces the alias \<open>{nb}\<close> in the
  header of every page by the decimal number of pages of the finished document, whatever
  its width: no width is reserved for it and nothing is raised.
\<close>

theorem total_pages_resolved:
  assumes "1 \<le> p" and "p \<le> page (run content (open_report wl sw))"
  shows "page_draws Header p (generate_report wl sw content) =
     [Text 10 10 (595.28 * 25.4 / 72 - 20) 5 AlignL header_title,
      Text (595.28 * 25.4 / 72 - 10) 10 0 5 AlignR
        (''Page '' @ str_nat p @ ''/'' @ str_nat (page (run content (open_report wl sw)))),
      Line 10 13 200 13]"
  using assms by (rule report_headers_resolved)

text \<open>The second page of a report of three pages.\<close>

theorem total_pages_resolved_witness:
  "(1::nat) \<le> 2 \<and> 2 \<le> page (run [AddPage, AddPage] (open_report plain_wrap plain_width))
   \<and> page_draws Header 2 (generate_report plain_wrap plain_width [AddPage, AddPage]) =
     [Text 10 10 (595.28 * 25.4 / 72 - 20) 5 AlignL header_title,
      Text (595.28 * 25.4 / 72 - 10) 10 0 5 AlignR ''Page 2/3'',
      Line 10 13 200 13]"
  using total_pages_resolved [of 2 "[AddPage, AddPage]" plain_wrap plain_width]
  by (simp add: run_def str_nat_small)

text \<open>
  Claim C2 as stated fails. A report of 150 pages is written with \<open>Page 1/150\<close> in
  its first header, where the resolver of the specification, with two digits reserved,
  fails with \<open>ConfigurationError\<close>.
\<close>

theorem no_configuration_error_counterexample:
  "page (run (replicate 149 AddPage) (open_report plain_wrap plain_width)) = 150
   \<and> page_draws Header 1 (generate_report plain_wrap plain_width (replicate 149 AddPage)) =
     [Text 10 10 (595.28 * 25.4 / 72 - 20) 5 AlignL header_title,
      Text (595.28 * 25.4 / 72 - 10) 10 0 5 AlignR ''Page 1/150'',
      Line 10 13 200 13]
   \<and> spec_resolve_total 2 150 = Inl ConfigurationError"
  using report_headers_resolved [of 1 "replicate 149 AddPage" plain_wrap plain_width]
  by (simp add: page_run_add_pages str_nat_small spec_resolve_total_def)

text \<open>
  Claim C6. In the document that \<open>generate_report\<close> writes, every page from 1 to the
  last has the primitives of exactly one header and of exactly one footer, and no other
  page number has any. The footer is the same on every page: its rule 17 mm and its
  caption 15 mm above the bottom edge of the page, whatever the content drew.
\<close>

theorem one_header_one_footer:
  "page_draws Header p (generate_report wl sw content) =
     (if 1 \<le> p \<and> p \<le> page (run content (open_report wl sw))
      then map (resolve_prim ''{nb}'' (str_nat (page (run content (open_report wl sw)))))
             (header_prims (open_report wl sw) p)
      else [])
   \<and> page_draws Footer p (generate_report wl sw content) =
     (if 1 \<le> p \<and> p \<le> page (run content (open_report wl sw))
      then [Line 10 (841.89 * 25.4 / 72 - 15 - 2) 200 (841.89 * 25.4 / 72 - 15 - 2),
            Text 10 (841.89 * 25.4 / 72 - 15) (595.28 * 25.4 / 72 - 20) 10 AlignC
              ''Below - Console RPG | C++17 / ECS Architecture'']
      else [])"
  by (simp add: generate_report_eq page_draws_resolve closed_report_headers [OF doc_inv_report]
      closed_report_footers [OF doc_inv_report] footer_prims_report resolve_fixed_texts)
     (simp add: footer_caption_def)

text \<open>A report of two pages: one header and one footer on each, none on a third.\<close>

theorem one_header_one_footer_witness:
  "length (page_draws Header 2 (generate_report plain_wrap plain_width [AddPage])) = 3
   \<and> page_draws Footer 1 (generate_report plain_wrap plain_width [AddPage]) =
       page_draws Footer 2 (generate_report plain_wrap plain_width [AddPage])
   \<and> length (page_draws Footer 2 (generate_report plain_wrap plain_width [AddPage])) = 2
   \<and> page_draws Footer 3 (generate_report plain_wrap plain_width [AddPage]) = []
   \<and> page_draws Header 3 (generate_report plain_wrap plain_width [AddPage]) = []"
  using one_header_one_footer [of 1 plain_wrap plain_width "[AddPage]"]
    one_header_one_footer [of 2 plain_wrap plain_width "[AddPage]"]
    one_header_one_footer [of 3 plain_wrap plain_width "[AddPage]"]
  by (simp add: run_def header_prims_def)

subsection \<open>The lines of the table of contents\<close>

lemma body_draws_append [simp]: "body_draws (a @ b) = body_draws a @ body_draws b"
  by (simp add: body_draws_def)

lemma body_draws_hf [simp]:
  "body_draws (footer_draws s) = []" "body_draws (header_draws s) = []"
  by (simp_all add: body_draws_def footer_draws_def header_draws_def hf_draw_def
      footer_prims_def header_prims_def)

lemma body_draws_one:
  "\<not> in_footer s \<Longrightarrow> \<not> in_header s \<Longrightarrow> body_draws [draw_of s p] = [draw_of s p]"
  by (simp add: body_draws_def draw_of_def origin_of_def)

lemma d_prim_draw_of [simp]: "d_prim (draw_of s p) = p"
  by (simp add: draw_of_def)

lemma ready_fields:
  "ready s \<Longrightarrow> 0 < page s" "ready s \<Longrightarrow> \<not> in_footer s" "ready s \<Longrightarrow> \<not> in_header s"
  by (simp_all add: ready_def)

text \<open>What one cell adds to the page, with or without a page break before it.\<close>

lemma cell_out:
  assumes "ready s"
  shows "\<exists>X. out (cell cw hh t al nx ny s) = out s @ X \<and>
     map d_prim (body_draws X) =
       [Text (pdf_x s) (if will_page_break hh s then t_margin s + 5 + 4 else pdf_y s)
          (if cw = 0 then pdf_w s - r_margin s - pdf_x s else cw) hh al t]"
proof (cases "will_page_break hh s")
  case True
  have f: "\<not> in_footer s" and p: "0 < page s" using assms by (simp_all add: ready_def)
  have "out (cell cw hh t al nx ny s) =
      out s @ (footer_draws s @ header_draws s @
        [draw_of (perform_page_break s) (Text (pdf_x s) (t_margin s + 5 + 4)
          (if cw = 0 then pdf_w s - r_margin s - pdf_x s else cw) hh al t)])"
    using True p by (simp add: cell_def render_cell_out add_page_out [OF f])
  moreover have "map d_prim (body_draws (footer_draws s @ header_draws s @
        [draw_of (perform_page_break s) (Text (pdf_x s) (t_margin s + 5 + 4)
          (if cw = 0 then pdf_w s - r_margin s - pdf_x s else cw) hh al t)])) =
      [Text (pdf_x s) (t_margin s + 5 + 4)
          (if cw = 0 then pdf_w s - r_margin s - pdf_x s else cw) hh al t]"
    using p by (simp add: body_draws_one)
  ultimately show ?thesis using True by auto
next
  case False
  have "out (cell cw hh t al nx ny s) = out s @ [draw_of s (Text (pdf_x s) (pdf_y s)
          (if cw = 0 then pdf_w s - r_margin s - pdf_x s else cw) hh al t)]"
    using False by (simp add: cell_def render_cell_out)
  moreover have "map d_prim (body_draws [draw_of s (Text (pdf_x s) (pdf_y s)
          (if cw = 0 then pdf_w s - r_margin s - pdf_x s else cw) hh al t)]) =
      [Text (pdf_x s) (pdf_y s) (if cw = 0 then pdf_w s - r_margin s - pdf_x s else cw) hh al t]"
    using assms by (simp add: body_draws_one ready_fields)
  ultimately show ?thesis using False by auto
qed

lemma ready_set_font [simp]: "ready (set_font fam sty sz s) = ready s"
  by (simp add: ready_def set_font_def page_break_trigger_def)

lemma run_toc_entry:
  "run (toc_entry (num, title, pg)) s =
     cell 0 6.5 (toc_text num title pg) AlignL X_LMARGIN Y_NEXT
       (set_font ''Helvetica'' (if \<not> startswith_space num then ''B'' else []) 11 s)"
  by (simp add: run_def toc_entry_def)

lemma set_font_geometry [simp]:
  "pdf_x (set_font fam sty sz s) = pdf_x s" "pdf_y (set_font fam sty sz s) = pdf_y s"
  "pdf_w (set_font fam sty sz s) = pdf_w s" "r_margin (set_font fam sty sz s) = r_margin s"
  "t_margin (set_font fam sty sz s) = t_margin s" "out (set_font fam sty sz s) = out s"
  "will_page_break hh (set_font fam sty sz s) = will_page_break hh s"
  by (simp_all add: set_font_def will_page_break_def page_break_trigger_def)

lemma toc_text_leader:
  "toc_text num title pg = num @ ''  '' @ title @ '' '' @
     replicate (nat (max 0 (70 - int (length num) - int (length title)))) (CHR ''.'') @
     '' '' @ str_nat pg"
  by (simp add: toc_text_def toc_dots_def py_str_mul_dot max_def)

lemma toc_entry_out:
  assumes "ready s"
  shows "\<exists>X. out (run (toc_entry (num, title, pg)) s) = out s @ X \<and>
     map d_prim (body_draws X) =
       [Text (pdf_x s) (if will_page_break 6.5 s then t_margin s + 5 + 4 else pdf_y s)
          (pdf_w s - r_margin s - pdf_x s) 6.5 AlignL (toc_text num title pg)]"
proof -
  let ?s1 = "set_font ''Helvetica'' (if \<not> startswith_space num then ''B'' else []) 11 s"
  have r: "ready ?s1" using assms by simp
  from cell_out [OF r, of 0 "6.5" "toc_text num title pg" AlignL X_LMARGIN Y_NEXT]
  show ?thesis unfolding run_toc_entry by auto
qed

lemma ready_toc_entry: "ready s \<Longrightarrow> ready (run (toc_entry (num, title, pg)) s)"
  unfolding run_toc_entry by (rule ready_cell) simp

lemma run_append: "run (a @ b) s = run b (run a s)"
  by (simp add: run_def)

lemma toc_loop_out:
  "ready s \<Longrightarrow>
   \<exists>X. out (run (concat (map toc_entry es)) s) = out s @ X \<and>
     map (text_string \<circ> d_prim) (body_draws X) =
       map (\<lambda>(num, title, pg). toc_text num title pg) es"
proof (induction es arbitrary: s)
  case Nil
  then show ?case by (simp add: run_def body_draws_def)
next
  case (Cons e es)
  obtain num title pg where e: "e = (num, title, pg)" by (cases e) auto
  let ?s1 = "run (toc_entry (num, title, pg)) s"
  from toc_entry_out [OF Cons.prems, of num title pg]
  obtain X where X: "out ?s1 = out s @ X"
    and B: "map (text_string \<circ> d_prim) (body_draws X) = [toc_text num title pg]"
    by (auto simp del: map_map simp add: map_map [symmetric])
  have "ready ?s1" using Cons.prems by (rule ready_toc_entry)
  from Cons.IH [OF this]
  obtain Y where Y: "out (run (concat (map toc_entry es)) ?s1) = out ?s1 @ Y"
    and C: "map (text_string \<circ> d_prim) (body_draws Y) =
       map (\<lambda>(num, title, pg). toc_text num title pg) es"
    by blast
  have "out (run (concat (map toc_entry (e # es))) s) = out s @ (X @ Y)"
    using X Y by (simp add: e run_append)
  moreover have "map (text_string \<circ> d_prim) (body_draws (X @ Y)) =
       map (\<lambda>(num, title, pg). toc_text num title pg) (e # es)"
    using B C by (simp add: e)
  ultimately show ?case by blast
qed

text \<open>
  Claim C5. From any state in which content is drawn, the two calls of the loop for an entry
  (number \<open>num\<close>, title \<open>title\<close>, page \<open>pg\<close>) draw exactly one text cell, at the
  cursor (at the top of a new page when the line does not fit), 6.5 high, up to the right
  margin, whose string is the number, two spaces, the title, a space, a leader of exactly
  \<open>max 0 (70 - len num - len title)\<close> dots, a space and the page. The whole loop over a
  list of entries draws one such line per entry, in order. When number and title together
  have 70 characters or more the leader is empty and the line is drawn all the same.
\<close>

theorem toc_entry_dot_leader:
  assumes "ready s"
  shows "map d_prim (body_draws (new_draws s (run (toc_entry (num, title, pg)) s))) =
     [Text (pdf_x s) (if will_page_break 6.5 s then t_margin s + 5 + 4 else pdf_y s)
        (pdf_w s - r_margin s - pdf_x s) 6.5 AlignL
        (num @ ''  '' @ title @ '' '' @
         replicate (nat (max 0 (70 - int (length num) - int (length title)))) (CHR ''.'') @
         '' '' @ str_nat pg)]
   \<and> map (text_string \<circ> d_prim)
       (body_draws (new_draws s (run (concat (map toc_entry es)) s))) =
     map (\<lambda>(num, title, pg). num @ ''  '' @ title @ '' '' @
         replicate (nat (max 0 (70 - int (length num) - int (length title)))) (CHR ''.'') @
         '' '' @ str_nat pg) es
   \<and> toc_dots num title =
     replicate (nat (max 0 (70 - int (length num) - int (length title)))) (CHR ''.'')
   \<and> (70 \<le> length num + length title \<longrightarrow> toc_dots num title = [])"
proof -
  from toc_entry_out [OF assms, of num title pg]
  obtain X where X: "out (run (toc_entry (num, title, pg)) s) = out s @ X"
    and B: "map d_prim (body_draws X) =
       [Text (pdf_x s) (if will_page_break 6.5 s then t_margin s + 5 + 4 else pdf_y s)
          (pdf_w s - r_margin s - pdf_x s) 6.5 AlignL (toc_text num title pg)]"
    by auto
  have "new_draws s (run (toc_entry (num, title, pg)) s) = X"
    using X by (simp add: new_draws_def)
  then have 1: "map d_prim (body_draws (new_draws s (run (toc_entry (num, title, pg)) s))) =
     [Text (pdf_x s) (if will_page_break 6.5 s then t_margin s + 5 + 4 else pdf_y s)
        (pdf_w s - r_margin s - pdf_x s) 6.5 AlignL
        (num @ ''  '' @ title @ '' '' @
         replicate (nat (max 0 (70 - int (length num) - int (length title)))) (CHR ''.'') @
         '' '' @ str_nat pg)]"
    using B by (simp add: toc_text_leader)
  from toc_loop_out [OF assms, of es]
  obtain Y where Y: "out (run (concat (map toc_entry es)) s) = out s @ Y"
    and C: "map (text_string \<circ> d_prim) (body_draws Y) =
       map (\<lambda>(num, title, pg). toc_text num title pg) es"
    by auto
  have "new_draws s (run (concat (map toc_entry es)) s) = Y"
    using Y by (simp add: new_draws_def)
  then have 2: "map (text_string \<circ> d_prim)
       (body_draws (new_draws s (run (concat (map toc_entry es)) s))) =
     map (\<lambda>(num, title, pg). num @ ''  '' @ title @ '' '' @
         replicate (nat (max 0 (70 - int (length num) - int (length title)))) (CHR ''.'') @
         '' '' @ str_nat pg) es"
    using C by (simp add: toc_text_leader)
  have 3: "toc_dots num title =
     replicate (nat (max 0 (70 - int (length num) - int (length title)))) (CHR ''.'')"
    by (simp add: toc_dots_def py_str_mul_dot max_def)
  have 4: "70 \<le> length num + length title \<longrightarrow> toc_dots num title = []"
    by (simp add: 3)
  from 1 2 3 4 show ?thesis by blast
qed

text \<open>
  An entry whose number and title have 70 characters, first on the opening page; and the
  loop over the first and the fourth entry of the report.
\<close>

theorem toc_entry_dot_leader_witness:
  "map d_prim (body_draws (new_draws (open_report plain_wrap plain_width)
      (run (toc_entry (''  3.2'', replicate 65 (CHR ''a''), 6)) (open_report plain_wrap plain_width)))) =
     [Text 10 19 (595.28 * 25.4 / 72 - 20) 6.5 AlignL (''  3.2  '' @ replicate 65 (CHR ''a'') @ ''  6'')]
   \<and> map (text_string \<circ> d_prim) (body_draws (new_draws (open_report plain_wrap plain_width)
      (run (concat (map toc_entry [(''1.'', ''Introduction'', 3), (''  3.1'', ''Structure des dossiers'', 5)]))
         (open_report plain_wrap plain_width)))) =
     [''1.  Introduction '' @ replicate 56 (CHR ''.'') @ '' 3'',
      ''  3.1  Structure des dossiers '' @ replicate 43 (CHR ''.'') @ '' 5'']
   \<and> 70 \<le> length ''  3.2'' + length (replicate 65 (CHR ''a''))
   \<and> toc_dots ''  3.2'' (replicate 65 (CHR ''a'')) = []"
  using toc_entry_dot_leader [OF ready_open_report,
      where num = "''  3.2''" and title = "replicate 65 (CHR ''a'')" and pg = 6
        and es = "[(''1.'', ''Introduction'', 3), (''  3.1'', ''Structure des dossiers'', 5)]"
        and ?wl1 = plain_wrap and ?sw1 = plain_width]
  by (simp add: str_nat.simps digit_char_def will_page_break_def page_break_trigger_def)

subsection \<open>Headers and footers after content of any style\<close>

lemma new_draws_append: "out s' = out s @ X \<Longrightarrow> new_draws s s' = X"
  by (simp add: new_draws_def)

lemma new_draws_add_page:
  "\<not> in_footer s \<Longrightarrow> 0 < page s \<Longrightarrow> new_draws s (add_page s) = footer_draws s @ header_draws s"
  by (rule new_draws_append) (simp add: add_page_out)

lemma new_draws_close_doc:
  "0 < page s \<Longrightarrow> new_draws s (close_doc s) = footer_draws s"
  by (rule new_draws_append) (simp add: close_doc_out)

lemma hf_draws_cong:
  assumes "page s = page s'" and "geom s = geom s'" and "draw_color s = draw_color s'"
  shows "footer_draws s = footer_draws s'" and "header_draws s = header_draws s'"
  using assms
  by (simp_all add: footer_draws_def header_draws_def footer_prims_def header_prims_def geom_def)

text \<open>
  Claim C10, as the program has it. \<open>header\<close> and \<open>footer\<close> select their own font
  and text colour, but never a draw colour. So for two renders that reach the end of the
  same page, on the same page geometry, with any fonts, text colours and fill colours but
  the same draw colour, the footer that closes the page and the header that opens the next
  one are the same primitives: texts, positions and looks.
\<close>

theorem header_footer_independent_of_text_style:
  assumes "0 < page s" and "\<not> in_footer s" and "\<not> in_footer s'"
    and "page s = page s'" and "geom s = geom s'" and "draw_color s = draw_color s'"
  shows "new_draws s (add_page s) = new_draws s' (add_page s')
       \<and> new_draws s (close_doc s) = new_draws s' (close_doc s')"
proof -
  from assms have p': "0 < page s'" by simp
  show ?thesis
    using assms p' hf_draws_cong [of s s']
    by (simp add: new_draws_add_page new_draws_close_doc)
qed

text \<open>The opening page, left in Helvetica italic or in blue Courier.\<close>

theorem header_footer_independent_of_text_style_witness:
  "new_draws (open_report plain_wrap plain_width) (add_page (open_report plain_wrap plain_width)) =
   new_draws (set_text_color 25 55 120 (set_font ''Courier'' [] 8 (open_report plain_wrap plain_width)))
     (add_page (set_text_color 25 55 120 (set_font ''Courier'' [] 8 (open_report plain_wrap plain_width))))
   \<and> new_draws (open_report plain_wrap plain_width) (close_doc (open_report plain_wrap plain_width)) =
   new_draws (set_text_color 25 55 120 (set_font ''Courier'' [] 8 (open_report plain_wrap plain_width)))
     (close_doc (set_text_color 25 55 120 (set_font ''Courier'' [] 8 (open_report plain_wrap plain_width))))"
  using header_footer_independent_of_text_style
    [where s = "open_report plain_wrap plain_width"
       and s' = "set_text_color 25 55 120 (set_font ''Courier'' [] 8 (open_report plain_wrap plain_width))"]
  by (simp add: geom_def set_text_color_def set_font_def)

lemma chapter_title_1_open:
  "page (chapter_title t 1 (open_report wl sw)) = 1"
  "draw_color (chapter_title t 1 (open_report wl sw)) = (25, 55, 120)"
  "\<not> in_footer (chapter_title t 1 (open_report wl sw))"
  by (simp_all add: chapter_title_def will_page_break_def page_break_trigger_def prim_defs)

text \<open>
  Claim C10 as stated fails. After a heading of level 1, which leaves the draw colour
  (25, 55, 120), the rule of the footer of page 1 and the rule of the header of page 2 are
  blue; without the heading they are black. Both renders are on page 1.
\<close>

theorem header_rule_colour_counterexample:
  "page (chapter_title ''T'' 1 (open_report plain_wrap plain_width)) =
     page (open_report plain_wrap plain_width)
   \<and> map d_look (new_draws (open_report plain_wrap plain_width)
        (add_page (open_report plain_wrap plain_width))) =
     [LineLook (0, 0, 0), TextLook ''Helvetica'' ''I'' 8 (120, 120, 120),
      TextLook ''Helvetica'' ''I'' 8 (120, 120, 120), TextLook ''Helvetica'' ''I'' 8 (120, 120, 120),
      LineLook (0, 0, 0)]
   \<and> map d_look (new_draws (chapter_title ''T'' 1 (open_report plain_wrap plain_width))
        (add_page (chapter_title ''T'' 1 (open_report plain_wrap plain_width)))) =
     [LineLook (25, 55, 120), TextLook ''Helvetica'' ''I'' 8 (120, 120, 120),
      TextLook ''Helvetica'' ''I'' 8 (120, 120, 120), TextLook ''Helvetica'' ''I'' 8 (120, 120, 120),
      LineLook (25, 55, 120)]"
  by (simp add: new_draws_add_page chapter_title_1_open footer_draws_def header_draws_def
      footer_prims_def header_prims_def hf_draw_def)

subsection \<open>Bullets\<close>

lemma cell_boxes:
  assumes "ready s"
  shows "\<exists>X. out (cell cw hh t al nx ny s) = out s @ X \<and>
     map (text_box \<circ> d_prim) (body_draws X) =
       [Some (pdf_x s, (if cw = 0 then pdf_w s - r_margin s - pdf_x s else cw), t)]"
proof -
  from cell_out [OF assms, of cw hh t al nx ny]
  obtain X where X: "out (cell cw hh t al nx ny s) = out s @ X"
    and B: "map d_prim (body_draws X) =
       [Text (pdf_x s) (if will_page_break hh s then t_margin s + 5 + 4 else pdf_y s)
          (if cw = 0 then pdf_w s - r_margin s - pdf_x s else cw) hh al t]"
    by (elim exE conjE)
  have "map (text_box \<circ> d_prim) (body_draws X) = map text_box (map d_prim (body_draws X))"
    by simp
  also have "\<dots> = [Some (pdf_x s, (if cw = 0 then pdf_w s - r_margin s - pdf_x s else cw), t)]"
    by (simp only: B list.map text_box.simps)
  finally have "map (text_box \<circ> d_prim) (body_draws X) =
      [Some (pdf_x s, (if cw = 0 then pdf_w s - r_margin s - pdf_x s else cw), t)]" .
  with X show ?thesis by (intro exI [of _ X] conjI)
qed


lemma multi_cell_lines_boxes:
  "ready s \<Longrightarrow>
   \<exists>X. out (multi_cell_lines cw hh ls s) = out s @ X \<and>
     map (text_box \<circ> d_prim) (body_draws X) =
       map (\<lambda>l. Some (pdf_x s, (if cw = 0 then pdf_w s - r_margin s - pdf_x s else cw), l)) ls"
proof (induction cw hh ls s rule: multi_cell_lines.induct)
  case (1 cw hh s)
  then show ?case by (simp add: body_draws_def)
next
  case (2 cw hh l s)
  from cell_boxes [OF 2, of cw hh l AlignJ X_RIGHT Y_NEXT]
  show ?case by (simp only: multi_cell_lines.simps list.map)
next
  case (3 cw hh l v va s)
  let ?s1 = "cell cw hh l AlignJ X_LEFT Y_NEXT s"
  from cell_boxes [OF 3(2), of cw hh l AlignJ X_LEFT Y_NEXT]
  obtain X where X: "out ?s1 = out s @ X"
    and B: "map (text_box \<circ> d_prim) (body_draws X) =
       [Some (pdf_x s, (if cw = 0 then pdf_w s - r_margin s - pdf_x s else cw), l)]"
    by (elim exE conjE)
  have r: "ready ?s1" using 3(2) by (rule ready_cell)
  have x: "pdf_x ?s1 = pdf_x s" by (simp add: cell_pdf_x)
  from 3(1) [OF r]
  obtain Y where Y: "out (multi_cell_lines cw hh (v # va) ?s1) = out ?s1 @ Y"
    and C0: "map (text_box \<circ> d_prim) (body_draws Y) =
       map (\<lambda>l. Some (pdf_x ?s1,
          (if cw = 0 then pdf_w ?s1 - r_margin ?s1 - pdf_x ?s1 else cw), l)) (v # va)"
    by (elim exE conjE)
  have C: "map (text_box \<circ> d_prim) (body_draws Y) =
       map (\<lambda>l. Some (pdf_x s, (if cw = 0 then pdf_w s - r_margin s - pdf_x s else cw), l)) (v # va)"
    using C0 by (simp only: x cell_simps)
  have "out (multi_cell_lines cw hh (l # v # va) s) = out s @ (X @ Y)"
    using X Y by simp
  moreover have "map (text_box \<circ> d_prim) (body_draws (X @ Y)) =
       map (\<lambda>l. Some (pdf_x s, (if cw = 0 then pdf_w s - r_margin s - pdf_x s else cw), l))
         (l # v # va)"
    using B C by simp
  ultimately show ?case by (intro exI [of _ "X @ Y"] conjI)
qed

lemma text_lines_not_Nil: "text_lines s cw t \<noteq> []"
  by (simp add: text_lines_def split: list.split)



subsection \<open>Code blocks and the page break\<close>

lemma split_nl_not_Nil: "split_nl code \<noteq> []"
  by (induction code) (simp_all split: list.split)

lemma step_len: "4.2 * real (length (l # ls)) = 4.2 + 4.2 * real (length ls)"
  by (simp add: field_simps)

lemma code_texts_inside:
  "lo \<le> ty \<Longrightarrow> ty + 4.2 * real (length ls) \<le> hi \<Longrightarrow>
   \<forall>p \<in> set (code_texts tx tw ty ls). v_inside lo hi p"
proof (induction ls arbitrary: ty)
  case Nil
  then show ?case by simp
next
  case (Cons l ls)
  have n: "0 \<le> 4.2 * real (length ls)" by simp
  have "lo \<le> ty + 4.2" using Cons.prems(1) by simp
  moreover have "ty + 4.2 + 4.2 * real (length ls) \<le> hi"
    using Cons.prems(2) unfolding step_len by linarith
  ultimately have "\<forall>p \<in> set (code_texts tx tw (ty + 4.2) ls). v_inside lo hi p"
    by (rule Cons.IH)
  moreover have "ty + 4.2 \<le> hi"
    using Cons.prems(2) n unfolding step_len by linarith
  ultimately show ?case using Cons.prems(1) by simp
qed

lemma length_code_texts [simp]: "length (code_texts tx tw ty ls) = length ls"
  by (induction ls arbitrary: ty) simp_all

lemma draw_of_cong:
  assumes "page s' = page s" "in_footer s' = in_footer s" "in_header s' = in_header s"
    "font_family s' = font_family s" "font_style s' = font_style s"
    "font_size_pt s' = font_size_pt s" "text_color s' = text_color s"
    "draw_color s' = draw_color s" "fill_color s' = fill_color s"
  shows "draw_of s' p = draw_of s p"
  using assms by (cases p) (simp_all add: draw_of_def look_of_def origin_of_def)

text \<open>The loop of \<open>code_block\<close> as long as no line asks for a page break.\<close>

lemma code_line_nobreak:
  assumes "0 \<le> x0 + 3" and "pdf_x s = x0 + 3"
    and "pdf_y s + 4.2 \<le> page_break_trigger s \<or> \<not> auto_page_break s"
  shows "code_line x0 l s =
     s\<lparr>pdf_y := pdf_y s + 4.2,
       out := out s @ [draw_of s (Text (x0 + 3) (pdf_y s) (pdf_w s - r_margin s - (x0 + 3)) 4.2 AlignL l)]\<rparr>"
proof -
  have "\<not> will_page_break 4.2 s" using assms(3) by (auto simp: will_page_break_def)
  then have "code_line x0 l s = set_x (x0 + 3) (render_cell 0 4.2 l AlignL X_LMARGIN Y_NEXT s)"
    by (simp add: code_line_def cell_def)
  then show ?thesis using assms(1,2) by (simp add: prim_defs)
qed

lemma fold_code_line_nobreak:
  assumes "0 \<le> x0 + 3" and "pdf_x s = x0 + 3"
    and "pdf_y s + 4.2 * real (length ls) \<le> page_break_trigger s \<or> \<not> auto_page_break s"
  shows "fold (code_line x0) ls s =
     s\<lparr>pdf_y := pdf_y s + 4.2 * real (length ls),
       out := out s @ map (draw_of s)
         (code_texts (x0 + 3) (pdf_w s - r_margin s - (x0 + 3)) (pdf_y s) ls)\<rparr>"
  using assms(2,3)
proof (induction ls arbitrary: s)
  case Nil
  then show ?case by simp
next
  case (Cons l ls)
  let ?s1 = "s\<lparr>pdf_y := pdf_y s + 4.2,
       out := out s @ [draw_of s (Text (x0 + 3) (pdf_y s) (pdf_w s - r_margin s - (x0 + 3)) 4.2 AlignL l)]\<rparr>"
  have n: "0 \<le> 4.2 * real (length ls)" by simp
  have fit1: "pdf_y s + 4.2 \<le> page_break_trigger s \<or> \<not> auto_page_break s"
    using Cons.prems(2) n unfolding step_len by argo
  have cl: "code_line x0 l s = ?s1"
    using assms(1) Cons.prems(1) fit1 by (rule code_line_nobreak)
  have x1: "pdf_x ?s1 = x0 + 3" using Cons.prems(1) by simp
  have fit: "pdf_y ?s1 + 4.2 * real (length ls) \<le> page_break_trigger ?s1 \<or> \<not> auto_page_break ?s1"
  proof -
    have "pdf_y ?s1 = pdf_y s + 4.2" "page_break_trigger ?s1 = page_break_trigger s"
      "auto_page_break ?s1 = auto_page_break s"
      by (simp_all add: page_break_trigger_def)
    then show ?thesis using Cons.prems(2) unfolding step_len by argo
  qed
  have d: "draw_of ?s1 = draw_of s"
    by (rule ext, rule draw_of_cong) simp_all
  have "fold (code_line x0) (l # ls) s = fold (code_line x0) ls ?s1"
    by (simp add: cl)
  also have "\<dots> = ?s1\<lparr>pdf_y := pdf_y ?s1 + 4.2 * real (length ls),
       out := out ?s1 @ map (draw_of ?s1)
         (code_texts (x0 + 3) (pdf_w ?s1 - r_margin ?s1 - (x0 + 3)) (pdf_y ?s1) ls)\<rparr>"
    using x1 fit by (rule Cons.IH)
  also have "\<dots> = s\<lparr>pdf_y := pdf_y s + 4.2 * real (length (l # ls)),
       out := out s @ map (draw_of s)
         (code_texts (x0 + 3) (pdf_w s - r_margin s - (x0 + 3)) (pdf_y s) (l # ls))\<rparr>"
    unfolding d by (simp add: field_simps)
  finally show ?case .
qed

text \<open>Whatever breaks happen, a cell and the loop only add to what is drawn.\<close>

lemma cell_extends: "\<exists>X. out (cell cw hh t al nx ny s) = out s @ X"
proof (cases "will_page_break hh s")
  case True
  then have "\<not> in_footer s" by (simp add: will_page_break_def)
  then show ?thesis using True by (simp add: cell_def render_cell_out add_page_out)
next
  case False
  then show ?thesis by (simp add: cell_def render_cell_out)
qed

lemma fold_code_line_extends: "\<exists>X. out (fold (code_line x0) ls s) = out s @ X"
proof (induction ls arbitrary: s)
  case Nil
  then show ?case by simp
next
  case (Cons l ls)
  obtain X where X: "out (code_line x0 l s) = out s @ X"
    using cell_extends [of 0 "4.2" l AlignL X_LMARGIN Y_NEXT s]
    by (auto simp: code_line_def set_x_def)
  obtain Y where Y: "out (fold (code_line x0) ls (code_line x0 l s)) = out (code_line x0 l s) @ Y"
    using Cons.IH [of "code_line x0 l s"] by (elim exE)
  have "out (fold (code_line x0) (l # ls) s) = out s @ (X @ Y)"
    using X Y by simp
  then show ?case by (rule exI)
qed

lemma setter_fields [simp]:
  "pdf_x (set_text_color r g b s) = pdf_x s" "pdf_y (set_text_color r g b s) = pdf_y s"
  "pdf_x (set_draw_color r g b s) = pdf_x s" "pdf_y (set_draw_color r g b s) = pdf_y s"
  "pdf_x (set_fill_color r g b s) = pdf_x s" "pdf_y (set_fill_color r g b s) = pdf_y s"
  "page (set_font fam sty sz s) = page s" "page (set_text_color r g b s) = page s"
  "page (set_draw_color r g b s) = page s" "page (set_fill_color r g b s) = page s"
  "in_footer (set_font fam sty sz s) = in_footer s" "in_footer (set_text_color r g b s) = in_footer s"
  "in_footer (set_draw_color r g b s) = in_footer s" "in_footer (set_fill_color r g b s) = in_footer s"
  "in_header (set_font fam sty sz s) = in_header s" "in_header (set_text_color r g b s) = in_header s"
  "in_header (set_draw_color r g b s) = in_header s" "in_header (set_fill_color r g b s) = in_header s"
  "out (set_text_color r g b s) = out s" "out (set_draw_color r g b s) = out s"
  "out (set_fill_color r g b s) = out s"
  "t_margin (set_text_color r g b s) = t_margin s" "t_margin (set_draw_color r g b s) = t_margin s"
  "t_margin (set_fill_color r g b s) = t_margin s"
  "draw_color (set_draw_color r g b s) = (r, g, b)" "draw_color (set_font fam sty sz s) = draw_color s"
  "draw_color (set_text_color r g b s) = draw_color s" "draw_color (set_fill_color r g b s) = draw_color s"
  "fill_color (set_fill_color r g b s) = (r, g, b)" "fill_color (set_font fam sty sz s) = fill_color s"
  "fill_color (set_text_color r g b s) = fill_color s" "fill_color (set_draw_color r g b s) = fill_color s"
  by (simp_all add: prim_defs)

lemma cursor_fields [simp]:
  "out (set_x v s) = out s" "out (set_xy vx vy s) = out s" "out (ln hh s) = out s"
  "page (set_x v s) = page s" "page (set_xy vx vy s) = page s" "page (ln hh s) = page s"
  "page (rect rx ry rw rh sty s) = page s"
  "out (rect rx ry rw rh sty s) = out s @ [draw_of s (Rect rx ry rw rh sty)]"
  by (simp_all add: prim_defs)

text \<open>\<open>code_block\<close> up to its loop, in the two cases of its test.\<close>

lemma code_block_stay:
  "\<not> 270 < pdf_y s + block_height code \<Longrightarrow>
   code_block code s =
     ln 3 (fold (code_line (pdf_x s + 5)) (split_nl code)
       (set_xy (pdf_x s + 5 + 3) (pdf_y s + 2)
         (rect (pdf_x s + 5) (pdf_y s) 180 (block_height code) ''DF''
           (set_draw_color 200 200 210 (set_text_color 40 40 40
             (set_fill_color 240 240 245 (set_font ''Courier'' [] 8 s)))))))"
  by (simp add: code_block_def Let_def block_height_def get_x_def get_y_def)

lemma code_block_move:
  "270 < pdf_y s + block_height code \<Longrightarrow>
   code_block code s =
     ln 3 (fold (code_line (pdf_x s + 5)) (split_nl code)
       (set_xy (pdf_x s + 5 + 3) (t_margin s + 5 + 4 + 2)
         (rect (pdf_x s + 5) (t_margin s + 5 + 4) 180 (block_height code) ''DF''
           (add_page (set_draw_color 200 200 210 (set_text_color 40 40 40
             (set_fill_color 240 240 245 (set_font ''Courier'' [] 8 s))))))))"
  by (simp add: code_block_def Let_def block_height_def get_x_def get_y_def)

lemma code_style_hf:
  "footer_draws (set_draw_color 200 200 210 (set_text_color 40 40 40
     (set_fill_color 240 240 245 (set_font ''Courier'' [] 8 s)))) =
   footer_draws (set_draw_color 200 200 210 s)"
  "header_draws (set_draw_color 200 200 210 (set_text_color 40 40 40
     (set_fill_color 240 240 245 (set_font ''Courier'' [] 8 s)))) =
   header_draws (set_draw_color 200 200 210 s)"
  by (rule hf_draws_cong; simp)+

lemma code_style_add_page_out:
  assumes "0 < page s" and "\<not> in_footer s"
  shows "out (add_page (set_draw_color 200 200 210 (set_text_color 40 40 40
       (set_fill_color 240 240 245 (set_font ''Courier'' [] 8 s))))) =
     out s @ footer_draws (set_draw_color 200 200 210 s) @
       header_draws (set_draw_color 200 200 210 s)"
  using assms by (simp add: add_page_out code_style_hf)

lemma code_rect_draw:
  assumes "\<not> in_footer s" and "\<not> in_header s"
  shows "draw_of (set_draw_color 200 200 210 (set_text_color 40 40 40
       (set_fill_color 240 240 245 (set_font ''Courier'' [] 8 s)))) (Rect rx ry rw rh sty) =
     \<lparr>d_page = page s, d_origin = Body, d_look = RectLook (200, 200, 210) (240, 240, 245),
      d_prim = Rect rx ry rw rh sty\<rparr>"
    and "0 < page s \<Longrightarrow> draw_of (add_page (set_draw_color 200 200 210 (set_text_color 40 40 40
       (set_fill_color 240 240 245 (set_font ''Courier'' [] 8 s))))) (Rect rx ry rw rh sty) =
     \<lparr>d_page = Suc (page s), d_origin = Body, d_look = RectLook (200, 200, 210) (240, 240, 245),
      d_prim = Rect rx ry rw rh sty\<rparr>"
  using assms by (simp_all add: draw_of_def look_of_def origin_of_def)

lemma code_block_head:
  assumes "ready s"
  shows "\<exists>Y. new_draws s (code_block code s) =
     (if 270 < pdf_y s + block_height code
      then footer_draws (set_draw_color 200 200 210 s) @ header_draws (set_draw_color 200 200 210 s)
      else []) @
     \<lparr>d_page = (if 270 < pdf_y s + block_height code then Suc (page s) else page s),
      d_origin = Body, d_look = RectLook (200, 200, 210) (240, 240, 245),
      d_prim = Rect (pdf_x s + 5)
        (if 270 < pdf_y s + block_height code then t_margin s + 5 + 4 else pdf_y s)
        180 (block_height code) ''DF''\<rparr> # Y"
proof -
  let ?s1 = "set_draw_color 200 200 210 (set_text_color 40 40 40
             (set_fill_color 240 240 245 (set_font ''Courier'' [] 8 s)))"
  let ?F = "footer_draws (set_draw_color 200 200 210 s)"
  let ?H = "header_draws (set_draw_color 200 200 210 s)"
  have r: "0 < page s" "\<not> in_footer s" "\<not> in_header s"
    using assms by (simp_all add: ready_def)
  show ?thesis
  proof (cases "270 < pdf_y s + block_height code")
    case True
    let ?R = "Rect (pdf_x s + 5) (t_margin s + 5 + 4) 180 (block_height code) ''DF''"
    let ?D = "\<lparr>d_page = Suc (page s), d_origin = Body,
         d_look = RectLook (200, 200, 210) (240, 240, 245), d_prim = ?R\<rparr>"
    let ?s4 = "set_xy (pdf_x s + 5 + 3) (t_margin s + 5 + 4 + 2)
         (rect (pdf_x s + 5) (t_margin s + 5 + 4) 180 (block_height code) ''DF'' (add_page ?s1))"
    obtain Y where Y: "out (fold (code_line (pdf_x s + 5)) (split_nl code) ?s4) = out ?s4 @ Y"
      using fold_code_line_extends [of "pdf_x s + 5" "split_nl code" ?s4] by (elim exE)
    have e1: "out (code_block code s) = out (fold (code_line (pdf_x s + 5)) (split_nl code) ?s4)"
      unfolding code_block_move [OF True] by (simp only: cursor_fields)
    have e2: "out ?s4 = out (add_page ?s1) @ [draw_of (add_page ?s1) ?R]"
      by (simp only: cursor_fields)
    have e3: "out (add_page ?s1) = out s @ ?F @ ?H"
      using r(1,2) by (rule code_style_add_page_out)
    have d: "draw_of (add_page ?s1) ?R = ?D"
      using r(2,3,1) by (rule code_rect_draw(2))
    have "out (code_block code s) = out s @ ((?F @ ?H) @ ?D # Y)"
      by (simp only: e1 Y e2 e3 d append_assoc append_Cons append_Nil)
    then have "new_draws s (code_block code s) = (?F @ ?H) @ ?D # Y"
      by (simp add: new_draws_def)
    then show ?thesis using True by (intro exI [of _ Y]) simp
  next
    case False
    let ?R = "Rect (pdf_x s + 5) (pdf_y s) 180 (block_height code) ''DF''"
    let ?D = "\<lparr>d_page = page s, d_origin = Body,
         d_look = RectLook (200, 200, 210) (240, 240, 245), d_prim = ?R\<rparr>"
    let ?s4 = "set_xy (pdf_x s + 5 + 3) (pdf_y s + 2)
         (rect (pdf_x s + 5) (pdf_y s) 180 (block_height code) ''DF'' ?s1)"
    obtain Y where Y: "out (fold (code_line (pdf_x s + 5)) (split_nl code) ?s4) = out ?s4 @ Y"
      using fold_code_line_extends [of "pdf_x s + 5" "split_nl code" ?s4] by (elim exE)
    have e1: "out (code_block code s) = out (fold (code_line (pdf_x s + 5)) (split_nl code) ?s4)"
      unfolding code_block_stay [OF False] by (simp only: cursor_fields)
    have e2: "out ?s4 = out ?s1 @ [draw_of ?s1 ?R]"
      by (simp only: cursor_fields)
    have e3: "out ?s1 = out s" by simp
    have d: "draw_of ?s1 ?R = ?D"
      using r(2,3) by (rule code_rect_draw(1))
    have "out (code_block code s) = out s @ (?D # Y)"
      by (simp only: e1 Y e2 e3 d append_assoc append_Cons append_Nil)
    then have "new_draws s (code_block code s) = ?D # Y"
      by (simp add: new_draws_def)
    then show ?thesis using False by (intro exI [of _ Y]) simp
  qed
qed

lemma draw_of_fields [simp]:
  "d_page (draw_of s p) = page s" "d_origin (draw_of s p) = origin_of s"
  by (simp_all add: draw_of_def)

lemma body_draws_map_draw_of:
  "\<not> in_footer s \<Longrightarrow> \<not> in_header s \<Longrightarrow> body_draws (map (draw_of s) ps) = map (draw_of s) ps"
  by (simp add: body_draws_def origin_of_def)

lemma map_d_prim_draw_of: "map d_prim (map (draw_of s) ps) = ps"
  by (induction ps) simp_all

lemma map_d_page_draw_of: "map d_page (map (draw_of s) ps) = replicate (length ps) (page s)"
  by (induction ps) simp_all

text \<open>The rectangle and the loop of \<open>code_block\<close> when every line fits above the trigger.\<close>

lemma code_block_body:
  assumes x: "0 \<le> x0 + 3" and y: "0 \<le> y1 + 2"
    and fit: "y1 + 2 + 4.2 * real (length ls) \<le> page_break_trigger s2 \<or> \<not> auto_page_break s2"
  shows "out (ln 3 (fold (code_line x0) ls (set_xy (x0 + 3) (y1 + 2) (rect x0 y1 180 h ''DF'' s2)))) =
     out s2 @ map (draw_of s2)
       (Rect x0 y1 180 h ''DF'' # code_texts (x0 + 3) (pdf_w s2 - r_margin s2 - (x0 + 3)) (y1 + 2) ls)"
proof -
  let ?s4 = "set_xy (x0 + 3) (y1 + 2) (rect x0 y1 180 h ''DF'' s2)"
  have f4: "pdf_x ?s4 = x0 + 3" "pdf_y ?s4 = y1 + 2" "pdf_w ?s4 = pdf_w s2"
    "r_margin ?s4 = r_margin s2" "page_break_trigger ?s4 = page_break_trigger s2"
    "auto_page_break ?s4 = auto_page_break s2"
    "out ?s4 = out s2 @ [draw_of s2 (Rect x0 y1 180 h ''DF'')]"
    using x y by (simp_all add: prim_defs page_break_trigger_def)
  have d4: "draw_of ?s4 = draw_of s2"
    by (rule ext, rule draw_of_cong) (simp_all add: prim_defs)
  have fit4: "pdf_y ?s4 + 4.2 * real (length ls) \<le> page_break_trigger ?s4 \<or> \<not> auto_page_break ?s4"
    unfolding f4 by (rule fit)
  have "out (fold (code_line x0) ls ?s4) =
      out ?s4 @ map (draw_of ?s4) (code_texts (x0 + 3) (pdf_w ?s4 - r_margin ?s4 - (x0 + 3)) (pdf_y ?s4) ls)"
    by (subst fold_code_line_nobreak [OF x f4(1) fit4]) simp
  then have "out (fold (code_line x0) ls ?s4) =
      out s2 @ map (draw_of s2)
       (Rect x0 y1 180 h ''DF'' # code_texts (x0 + 3) (pdf_w s2 - r_margin s2 - (x0 + 3)) (y1 + 2) ls)"
    unfolding f4 d4 by simp
  then show ?thesis by (simp only: cursor_fields)
qed

lemma block_inside:
  "list_all (v_inside y1 (y1 + (real (length ls) * 4.2 + 4)))
     (Rect rx y1 rw (real (length ls) * 4.2 + 4) sty # code_texts tx tw (y1 + 2) ls)"
proof -
  have "\<forall>p \<in> set (code_texts tx tw (y1 + 2) ls).
      v_inside y1 (y1 + (real (length ls) * 4.2 + 4)) p"
    by (rule code_texts_inside) (simp_all add: field_simps)
  then show ?thesis by (simp add: list_all_iff)
qed

lemma code_block_fits:
  assumes "ready s" and "0 \<le> pdf_x s" and "0 \<le> pdf_y s" and "0 \<le> t_margin s"
    and fit: "(if 270 < pdf_y s + block_height code then t_margin s + 5 + 4 else pdf_y s)
        + block_height code - 2 \<le> page_break_trigger s \<or> \<not> auto_page_break s"
  shows "new_draws s (code_block code s) =
       (if 270 < pdf_y s + block_height code
        then footer_draws (set_draw_color 200 200 210 s) @ header_draws (set_draw_color 200 200 210 s)
        else []) @ body_draws (new_draws s (code_block code s))
   \<and> map d_prim (body_draws (new_draws s (code_block code s))) =
       Rect (pdf_x s + 5)
         (if 270 < pdf_y s + block_height code then t_margin s + 5 + 4 else pdf_y s)
         180 (block_height code) ''DF'' #
       code_texts (pdf_x s + 5 + 3) (pdf_w s - r_margin s - (pdf_x s + 5 + 3))
         ((if 270 < pdf_y s + block_height code then t_margin s + 5 + 4 else pdf_y s) + 2)
         (split_nl code)
   \<and> map d_page (body_draws (new_draws s (code_block code s))) =
       replicate (Suc (length (split_nl code)))
         (if 270 < pdf_y s + block_height code then Suc (page s) else page s)
   \<and> list_all (v_inside
         (if 270 < pdf_y s + block_height code then t_margin s + 5 + 4 else pdf_y s)
         ((if 270 < pdf_y s + block_height code then t_margin s + 5 + 4 else pdf_y s)
            + block_height code))
       (map d_prim (body_draws (new_draws s (code_block code s))))"
proof -
  let ?s1 = "set_draw_color 200 200 210 (set_text_color 40 40 40
             (set_fill_color 240 240 245 (set_font ''Courier'' [] 8 s)))"
  let ?F = "footer_draws (set_draw_color 200 200 210 s)"
  let ?H = "header_draws (set_draw_color 200 200 210 s)"
  let ?x0 = "pdf_x s + 5"
  let ?ls = "split_nl code"
  have r: "0 < page s" "\<not> in_footer s" "\<not> in_header s"
    using assms(1) by (simp_all add: ready_def)
  have x: "0 \<le> ?x0 + 3" using assms(2) by simp
  have g1: "pdf_w ?s1 = pdf_w s" "r_margin ?s1 = r_margin s"
    "page_break_trigger ?s1 = page_break_trigger s" "auto_page_break ?s1 = auto_page_break s"
    "out ?s1 = out s" "page ?s1 = page s" "in_footer ?s1 = in_footer s" "in_header ?s1 = in_header s"
    by (simp_all add: prim_defs page_break_trigger_def)
  have bh: "block_height code = real (length ?ls) * 4.2 + 4" by (simp add: block_height_def)
  show ?thesis
  proof (cases "270 < pdf_y s + block_height code")
    case True
    let ?y1 = "t_margin s + 5 + 4"
    let ?s2 = "add_page ?s1"
    let ?P = "Rect ?x0 ?y1 180 (block_height code) ''DF'' #
        code_texts (?x0 + 3) (pdf_w s - r_margin s - (?x0 + 3)) (?y1 + 2) ?ls"
    have y: "0 \<le> ?y1 + 2" using assms(4) by simp
    have g2: "pdf_w ?s2 = pdf_w s" "r_margin ?s2 = r_margin s"
      "page_break_trigger ?s2 = page_break_trigger s" "auto_page_break ?s2 = auto_page_break s"
      "page ?s2 = Suc (page s)" "\<not> in_footer ?s2" "\<not> in_header ?s2"
      using r g1 by (simp_all add: page_break_trigger_def)
    have fit2: "?y1 + 2 + 4.2 * real (length ?ls) \<le> page_break_trigger ?s2 \<or> \<not> auto_page_break ?s2"
      using fit True unfolding g2 bh by (simp add: field_simps)
    have o: "out (code_block code s) = out ?s2 @ map (draw_of ?s2) ?P"
      unfolding code_block_move [OF True] code_block_body [OF x y fit2] g2 ..
    have e3: "out ?s2 = out s @ ?F @ ?H"
      using r(1,2) by (rule code_style_add_page_out)
    have n: "new_draws s (code_block code s) = (?F @ ?H) @ map (draw_of ?s2) ?P"
      unfolding new_draws_def o e3 by simp
    have bm: "body_draws (map (draw_of ?s2) ?P) = map (draw_of ?s2) ?P"
      using g2(6,7) by (rule body_draws_map_draw_of)
    have b: "body_draws (new_draws s (code_block code s)) = map (draw_of ?s2) ?P"
      unfolding n by (simp only: body_draws_append body_draws_hf bm append_Nil)
    have 1: "new_draws s (code_block code s) = (?F @ ?H) @ body_draws (new_draws s (code_block code s))"
      unfolding b by (rule n)
    have 2: "map d_prim (body_draws (new_draws s (code_block code s))) = ?P"
      unfolding b by (rule map_d_prim_draw_of)
    have 3: "map d_page (body_draws (new_draws s (code_block code s))) =
        replicate (Suc (length ?ls)) (Suc (page s))"
      unfolding b map_d_page_draw_of g2 by simp
    have 4: "list_all (v_inside ?y1 (?y1 + block_height code)) ?P"
      unfolding bh by (rule block_inside)
    from True 1 2 3 4 show ?thesis by simp
  next
    case False
    let ?y1 = "pdf_y s"
    let ?P = "Rect ?x0 ?y1 180 (block_height code) ''DF'' #
        code_texts (?x0 + 3) (pdf_w s - r_margin s - (?x0 + 3)) (?y1 + 2) ?ls"
    have y: "0 \<le> ?y1 + 2" using assms(3) by simp
    have fit2: "?y1 + 2 + 4.2 * real (length ?ls) \<le> page_break_trigger ?s1 \<or> \<not> auto_page_break ?s1"
      using fit False unfolding g1 bh by (simp add: field_simps)
    have o: "out (code_block code s) = out ?s1 @ map (draw_of ?s1) ?P"
      unfolding code_block_stay [OF False] code_block_body [OF x y fit2] g1 ..
    have n: "new_draws s (code_block code s) = map (draw_of ?s1) ?P"
      unfolding new_draws_def o g1 by simp
    have b1: "\<not> in_footer ?s1" "\<not> in_header ?s1" using r by simp_all
    have b: "body_draws (new_draws s (code_block code s)) = map (draw_of ?s1) ?P"
      unfolding n using b1 by (rule body_draws_map_draw_of)
    have 1: "new_draws s (code_block code s) = body_draws (new_draws s (code_block code s))"
      unfolding b by (rule n)
    have 2: "map d_prim (body_draws (new_draws s (code_block code s))) = ?P"
      unfolding b by (rule map_d_prim_draw_of)
    have 3: "map d_page (body_draws (new_draws s (code_block code s))) =
        replicate (Suc (length ?ls)) (page s)"
      unfolding b map_d_page_draw_of g1 by simp
    have 4: "list_all (v_inside ?y1 (?y1 + block_height code)) ?P"
      unfolding bh by (rule block_inside)
    from False 1 2 3 4 show ?thesis by simp
  qed
qed

lemma split_nl_newlines: "split_nl (replicate n (CHR 0x0A)) = replicate (Suc n) []"
  by (induction n) simp_all

lemma code_line_break:
  assumes "will_page_break 4.2 s" and "0 < page s"
  shows "out (code_line x0 l s) =
     out s @ footer_draws s @ header_draws s @
       [draw_of (perform_page_break s)
          (Text (pdf_x s) (t_margin s + 5 + 4) (pdf_w s - r_margin s - pdf_x s) 4.2 AlignL l)]"
proof -
  have f: "\<not> in_footer s" using assms(1) by (simp add: will_page_break_def)
  show ?thesis
    using assms by (simp add: code_line_def cell_def render_cell_out add_page_out [OF f])
qed

text \<open>
  A block that is moved to a new page and whose last line still does not fit there: the
  rectangle and all lines but the last are drawn on the new page, the last line on the
  page after it.
\<close>

lemma code_block_split:
  assumes "ready s" and "0 \<le> pdf_x s" and "0 \<le> t_margin s"
    and brk: "270 < pdf_y s + block_height code"
    and ls: "split_nl code = ls @ [l]"
    and fit: "t_margin s + 5 + 4 + 2 + 4.2 * real (length ls) \<le> page_break_trigger s"
    and nofit: "page_break_trigger s < t_margin s + 5 + 4 + 2 + 4.2 * real (length ls) + 4.2"
    and auto: "auto_page_break s"
  shows "map d_page (body_draws (new_draws s (code_block code s))) =
     replicate (Suc (length ls)) (Suc (page s)) @ [Suc (Suc (page s))]"
proof -
  let ?s1 = "set_draw_color 200 200 210 (set_text_color 40 40 40
             (set_fill_color 240 240 245 (set_font ''Courier'' [] 8 s)))"
  let ?F = "footer_draws (set_draw_color 200 200 210 s)"
  let ?H = "header_draws (set_draw_color 200 200 210 s)"
  let ?x0 = "pdf_x s + 5"
  let ?y1 = "t_margin s + 5 + 4"
  let ?s2 = "add_page ?s1"
  let ?R = "Rect ?x0 ?y1 180 (block_height code) ''DF''"
  let ?s4 = "set_xy (?x0 + 3) (?y1 + 2) (rect ?x0 ?y1 180 (block_height code) ''DF'' ?s2)"
  let ?T = "code_texts (?x0 + 3) (pdf_w s - r_margin s - (?x0 + 3)) (?y1 + 2) ls"
  define s5 where "s5 = fold (code_line ?x0) ls ?s4"
  have r: "0 < page s" "\<not> in_footer s" "\<not> in_header s"
    using assms(1) by (simp_all add: ready_def)
  have x: "0 \<le> ?x0 + 3" using assms(2) by simp
  have y: "0 \<le> ?y1 + 2" using assms(3) by simp
  have g4: "pdf_x ?s4 = ?x0 + 3" "pdf_y ?s4 = ?y1 + 2" "pdf_w ?s4 = pdf_w s"
    "r_margin ?s4 = r_margin s" "page_break_trigger ?s4 = page_break_trigger s"
    "auto_page_break ?s4 = auto_page_break s" "page ?s4 = Suc (page s)"
    "\<not> in_footer ?s4" "\<not> in_header ?s4" "t_margin ?s4 = t_margin s"
    "out ?s4 = out ?s2 @ [draw_of ?s2 ?R]"
    using x y r by (simp_all add: prim_defs page_break_trigger_def)
  have d4: "draw_of ?s4 = draw_of ?s2"
    by (rule ext, rule draw_of_cong) (simp_all add: prim_defs)
  have fit4: "pdf_y ?s4 + 4.2 * real (length ls) \<le> page_break_trigger ?s4 \<or> \<not> auto_page_break ?s4"
    unfolding g4 using fit by simp
  have s5: "s5 = ?s4\<lparr>pdf_y := pdf_y ?s4 + 4.2 * real (length ls),
       out := out ?s4 @ map (draw_of ?s4)
         (code_texts (?x0 + 3) (pdf_w ?s4 - r_margin ?s4 - (?x0 + 3)) (pdf_y ?s4) ls)\<rparr>"
    unfolding s5_def using x g4(1) fit4 by (rule fold_code_line_nobreak)
  have g5: "pdf_y s5 = ?y1 + 2 + 4.2 * real (length ls)" "page s5 = Suc (page s)"
    "\<not> in_footer s5" "\<not> in_header s5" "page_break_trigger s5 = page_break_trigger s"
    "auto_page_break s5 = auto_page_break s"
    "out s5 = out ?s2 @ draw_of ?s2 ?R # map (draw_of ?s2) ?T"
    unfolding s5 d4 using g4 by (simp_all add: page_break_trigger_def)
  have w: "will_page_break 4.2 s5"
    unfolding will_page_break_def g5 using nofit auto g5(3) by simp
  have p5: "0 < page s5" unfolding g5 by simp
  have cb: "code_block code s = ln 3 (code_line ?x0 l s5)"
    unfolding code_block_move [OF brk] ls s5_def by simp
  have e3: "out ?s2 = out s @ ?F @ ?H"
    using r(1,2) by (rule code_style_add_page_out)
  obtain D where D: "out (code_line ?x0 l s5) = out s5 @ footer_draws s5 @ header_draws s5 @
      [draw_of (perform_page_break s5) D]"
    using code_line_break [OF w p5, of ?x0 l] by blast
  have o: "out (code_block code s) =
      out s @ ((?F @ ?H) @ (draw_of ?s2 ?R # map (draw_of ?s2) ?T) @
        (footer_draws s5 @ header_draws s5) @ [draw_of (perform_page_break s5) D])"
    unfolding cb by (simp only: cursor_fields D g5 e3 append_assoc)
  have n: "new_draws s (code_block code s) =
      (?F @ ?H) @ (draw_of ?s2 ?R # map (draw_of ?s2) ?T) @
        (footer_draws s5 @ header_draws s5) @ [draw_of (perform_page_break s5) D]"
    unfolding new_draws_def o by simp
  have b2: "\<not> in_footer ?s2" "\<not> in_header ?s2" using r by simp_all
  have bm: "body_draws (draw_of ?s2 ?R # map (draw_of ?s2) ?T) = draw_of ?s2 ?R # map (draw_of ?s2) ?T"
    using body_draws_map_draw_of [OF b2, of "?R # ?T"] by simp
  have bl: "body_draws [draw_of (perform_page_break s5) D] = [draw_of (perform_page_break s5) D]"
    using p5 by (simp add: body_draws_def origin_of_def)
  have b: "body_draws (new_draws s (code_block code s)) =
      (draw_of ?s2 ?R # map (draw_of ?s2) ?T) @ [draw_of (perform_page_break s5) D]"
    unfolding n by (simp only: body_draws_append body_draws_hf bm bl append_Nil append_Nil2)
  have p2: "page ?s2 = Suc (page s)" by simp
  have m: "map d_page (map (draw_of ?s2) ?T) = replicate (length ls) (Suc (page s))"
    unfolding map_d_page_draw_of p2 by simp
  have "map d_page ((draw_of ?s2 ?R # map (draw_of ?s2) ?T) @ [draw_of (perform_page_break s5) D]) =
      (Suc (page s) # replicate (length ls) (Suc (page s))) @ [Suc (Suc (page s))]"
    unfolding map_append list.map m by (simp add: g5(2))
  then show ?thesis unfolding b by simp
qed

lemma ready_ln [simp]: "ready (ln hh s) = ready s"
  by (simp add: ready_def ln_def page_break_trigger_def)

lemma ln_fields [simp]:
  "pdf_x (ln hh s) = l_margin s" "pdf_y (ln hh s) = pdf_y s + hh"
  "t_margin (ln hh s) = t_margin s" "l_margin (ln hh s) = l_margin s"
  "r_margin (ln hh s) = r_margin s" "pdf_w (ln hh s) = pdf_w s"
  "pdf_h (ln hh s) = pdf_h s" "b_margin (ln hh s) = b_margin s"
  "auto_page_break (ln hh s) = auto_page_break s"
  "page_break_trigger (ln hh s) = page_break_trigger s"
  by (simp_all add: ln_def page_break_trigger_def)

lemma split_nl_x: "split_nl ''x'' = [''x'']" "split_nl ([CHR ''a'', CHR 0x0A, CHR ''b'']) = [''a'', ''b'']"
  by simp_all

lemma block_height_x: "block_height ''x'' = 8.2" "block_height ([CHR ''a'', CHR 0x0A, CHR ''b'']) = 12.4"
  by (simp_all add: block_height_def)







end
